theory Spec2Isabelle
  imports Complex_Main "HOL-Library.Multiset"
begin

section \<open>The snake mini-game and the article shuffle\<close>

text \<open>
  The embedding follows the two versions of the canvas game that the repository holds
  (the component with the forbidden zone for the food, and the older one under
  \<^verbatim>\<open>src/components/SnakeGame.tsx\<close>) and the helper \<^verbatim>\<open>shuffleArray\<close> of the digest service.
  JavaScript numbers are idealised as real numbers: \<^verbatim>\<open>Math.PI\<close> is \<^term>\<open>pi\<close>,
  \<^verbatim>\<open>Math.sqrt\<close>, \<^verbatim>\<open>Math.cos\<close> and \<^verbatim>\<open>Math.sin\<close> are the real functions, and rounding,
  infinities and NaN are outside the model. The values that \<^verbatim>\<open>Math.random()\<close> returns are
  a stream given with the state, together with the number of values already drawn.
\<close>

subsection \<open>Configuration\<close>

definition SPEED :: real where "SPEED = 2.5"
definition TURN_SPEED :: real where "TURN_SPEED = 0.15"
definition TAIL_LENGTH :: nat where "TAIL_LENGTH = 20"
definition GROWTH_PER_FOOD :: nat where "GROWTH_PER_FOOD = 10"
definition SEGMENT_SPACING :: nat where "SEGMENT_SPACING = 4"

subsection \<open>Data\<close>

record point =
  x :: real
  y :: real

text \<open>
  The refs of the component. \<open>isPlaying\<close> stands for \<^verbatim>\<open>isPlayingRef.current\<close> and the React
  state of the same name, which are always written together; \<open>rafPending\<close> says that a
  frame callback is requested from the browser and not yet run.
\<close>

record game =
  pos :: point
  angle :: real
  targetAngle :: real
  history :: "point list"
  food :: point
  score :: nat
  isPlaying :: bool
  headPos :: point
  width :: real
  height :: real
  mathRandom :: "nat \<Rightarrow> real"
  draws :: nat
  rafPending :: bool

definition startGame :: "game \<Rightarrow> game" where
  "startGame s = s\<lparr>isPlaying := True\<rparr>"

definition handleResize :: "real \<Rightarrow> real \<Rightarrow> game \<Rightarrow> game" where
  "handleResize clientWidth clientHeight s = s\<lparr>width := clientWidth, height := clientHeight\<rparr>"

subsection \<open>The spawner\<close>

definition margin :: real where "margin = 20"
definition forbiddenW :: real where "forbiddenW = 340"
definition forbiddenH :: real where "forbiddenH = 250"

definition inBoxX :: "real \<Rightarrow> real \<Rightarrow> bool" where
  "inBoxX w newX \<longleftrightarrow> newX > w / 2 - forbiddenW / 2 \<and> newX < w / 2 + forbiddenW / 2"

definition inBoxY :: "real \<Rightarrow> real \<Rightarrow> bool" where
  "inBoxY h newY \<longleftrightarrow> newY > h / 2 - forbiddenH / 2 \<and> newY < h / 2 + forbiddenH / 2"

text \<open>
  The rejection loop of \<^verbatim>\<open>spawnFood\<close>: its locals are \<open>valid\<close>, \<open>newX\<close>, \<open>newY\<close> and
  \<open>attempts\<close>; \<open>n\<close> counts the random values drawn. Each attempt draws the abscissa first.
\<close>

function spawnLoop ::
  "(nat \<Rightarrow> real) \<Rightarrow> real \<Rightarrow> real \<Rightarrow> bool \<Rightarrow> real \<Rightarrow> real \<Rightarrow> nat \<Rightarrow> nat \<Rightarrow> bool \<times> real \<times> real \<times> nat"
where
  "spawnLoop R w h valid newX newY attempts n =
     (if \<not> valid \<and> attempts < 100 then
        (let nX = margin + R n * (w - 2 * margin);
             nY = margin + R (Suc n) * (h - 2 * margin)
         in spawnLoop R w h (if \<not> inBoxX w nX \<or> \<not> inBoxY h nY then True else valid)
              nX nY (Suc attempts) (Suc (Suc n)))
      else (valid, newX, newY, n))"
  by pat_completeness auto
termination
  by (relation "measure (\<lambda>(R, w, h, valid, newX, newY, attempts, n). 100 - attempts)") auto

declare spawnLoop.simps [simp del]

definition spawnFood :: "game \<Rightarrow> game" where
  "spawnFood s =
     (case spawnLoop (mathRandom s) (width s) (height s) False 0 0 0 (draws s) of
        (valid, newX, newY, n) \<Rightarrow>
          s\<lparr>food := (if \<not> valid then \<lparr>x = margin, y = margin\<rparr> else \<lparr>x = newX, y = newY\<rparr>),
            draws := n\<rparr>)"

text \<open>The spawner of \<^verbatim>\<open>src/components/SnakeGame.tsx\<close>: one draw per axis, no forbidden zone.\<close>

definition spawnFood_src :: "game \<Rightarrow> game" where
  "spawnFood_src s =
     s\<lparr>food := \<lparr>x = margin + mathRandom s (draws s) * (width s - 2 * margin),
                 y = margin + mathRandom s (Suc (draws s)) * (height s - 2 * margin)\<rparr>,
       draws := Suc (Suc (draws s))\<rparr>"

subsection \<open>Initialisation\<close>

text \<open>
  \<^verbatim>\<open>initGame\<close> is the same text in both versions; it calls the spawner of its own file,
  here the parameter \<open>sp\<close>. The loop that pushes the initial tail is the map over the
  indices \<open>0 ..< TAIL_LENGTH * SEGMENT_SPACING\<close>.
\<close>

definition startX :: "game \<Rightarrow> real" where
  "startX s = (if width s > 0 then width s - 50 else 300)"

definition startY :: "game \<Rightarrow> real" where
  "startY s = (if height s > 0 then height s - 30 else 500)"

definition initialTail :: "point \<Rightarrow> point list" where
  "initialTail p =
     map (\<lambda>i. \<lparr>x = x p + real i * SPEED, y = y p\<rparr>) [0 ..< TAIL_LENGTH * SEGMENT_SPACING]"

definition initGame :: "(game \<Rightarrow> game) \<Rightarrow> bool \<Rightarrow> game \<Rightarrow> game" where
  "initGame sp fullReset s =
     (let p = \<lparr>x = startX s, y = startY s\<rparr>;
          s1 = s\<lparr>pos := p, headPos := p, angle := pi, targetAngle := pi,
                 history := initialTail p, score := 0\<rparr>;
          s2 = sp s1
      in if fullReset then s2\<lparr>isPlaying := False\<rparr> else s2)"

subsection \<open>The stepper\<close>

function normUp :: "real \<Rightarrow> real" where
  "normUp d = (if d \<le> - pi then normUp (d + pi * 2) else d)"
  by pat_completeness auto
termination
proof (relation "measure (\<lambda>d. nat (\<lfloor>(- pi - d) / (pi * 2)\<rfloor> + 1))")
  show "wf (measure (\<lambda>d. nat (\<lfloor>(- pi - d) / (pi * 2)\<rfloor> + 1)))" by simp
next
  fix d :: real
  assume le: "d \<le> - pi"
  have e: "(- pi - (d + pi * 2)) / (pi * 2) = (- pi - d) / (pi * 2) - 1"
    by (simp add: field_simps)
  have "0 \<le> (- pi - d) / (pi * 2)" using le by simp
  then have f: "0 \<le> \<lfloor>(- pi - d) / (pi * 2)\<rfloor>" by simp
  have "nat (\<lfloor>(- pi - d) / (pi * 2) - 1\<rfloor> + 1) < nat (\<lfloor>(- pi - d) / (pi * 2)\<rfloor> + 1)"
    using f by simp
  then have "nat (\<lfloor>(- pi - (d + pi * 2)) / (pi * 2)\<rfloor> + 1)
      < nat (\<lfloor>(- pi - d) / (pi * 2)\<rfloor> + 1)"
    by (simp only: e)
  then show "(d + pi * 2, d) \<in> measure (\<lambda>d. nat (\<lfloor>(- pi - d) / (pi * 2)\<rfloor> + 1))"
    by (simp only: in_measure)
qed

declare normUp.simps [simp del]

function normDown :: "real \<Rightarrow> real" where
  "normDown d = (if d > pi then normDown (d - pi * 2) else d)"
  by pat_completeness auto
termination
proof (relation "measure (\<lambda>d. nat (\<lfloor>(d - pi) / (pi * 2)\<rfloor> + 1))")
  show "wf (measure (\<lambda>d. nat (\<lfloor>(d - pi) / (pi * 2)\<rfloor> + 1)))" by simp
next
  fix d :: real
  assume gt: "pi < d"
  have e: "(d - pi * 2 - pi) / (pi * 2) = (d - pi) / (pi * 2) - 1"
    by (simp add: field_simps)
  have "0 \<le> (d - pi) / (pi * 2)" using gt by simp
  then have f: "0 \<le> \<lfloor>(d - pi) / (pi * 2)\<rfloor>" by simp
  have "nat (\<lfloor>(d - pi) / (pi * 2) - 1\<rfloor> + 1) < nat (\<lfloor>(d - pi) / (pi * 2)\<rfloor> + 1)"
    using f by simp
  then have "nat (\<lfloor>(d - pi * 2 - pi) / (pi * 2)\<rfloor> + 1) < nat (\<lfloor>(d - pi) / (pi * 2)\<rfloor> + 1)"
    by (simp only: e)
  then show "(d - pi * 2, d) \<in> measure (\<lambda>d. nat (\<lfloor>(d - pi) / (pi * 2)\<rfloor> + 1))"
    by (simp only: in_measure)
qed

declare normDown.simps [simp del]

text \<open>Step 1 of \<^verbatim>\<open>loop\<close>: the two \<^verbatim>\<open>while\<close> loops on \<open>diff\<close>, then the easing.\<close>

definition normDiff :: "game \<Rightarrow> real" where
  "normDiff s = normDown (normUp (targetAngle s - angle s))"

definition updateDirection :: "game \<Rightarrow> game" where
  "updateDirection s = s\<lparr>angle := angle s + normDiff s * TURN_SPEED\<rparr>"

text \<open>Step 2: the head moves by \<open>SPEED\<close> along the new angle.\<close>

definition moveHead :: "game \<Rightarrow> game" where
  "moveHead s =
     s\<lparr>pos := \<lparr>x = x (pos s) + cos (angle s) * SPEED, y = y (pos s) + sin (angle s) * SPEED\<rparr>\<rparr>"

text \<open>Step 3: four \<^verbatim>\<open>if\<close> statements in sequence, each reading what the one before wrote.\<close>

definition wrapLow :: "real \<Rightarrow> real \<Rightarrow> real" where
  "wrapLow bound v = (if v < 0 then bound else v)"

definition wrapHigh :: "real \<Rightarrow> real \<Rightarrow> real" where
  "wrapHigh bound v = (if v > bound then 0 else v)"

definition wraparound :: "game \<Rightarrow> game" where
  "wraparound s =
     s\<lparr>pos := \<lparr>x = wrapHigh (width s) (wrapLow (width s) (x (pos s))),
                y = wrapHigh (height s) (wrapLow (height s) (y (pos s)))\<rparr>\<rparr>"

text \<open>Step 4: \<^verbatim>\<open>unshift\<close> of a copy of the head, and one \<^verbatim>\<open>pop\<close> above the cap.\<close>

definition currentLength :: "game \<Rightarrow> nat" where
  "currentLength s = (TAIL_LENGTH + score s * GROWTH_PER_FOOD) * SEGMENT_SPACING"

definition updateTail :: "game \<Rightarrow> game" where
  "updateTail s =
     (let h = pos s # history s
      in s\<lparr>history := (if length h > currentLength s then butlast h else h)\<rparr>)"

text \<open>Step 5: the food check.\<close>

definition foodDist :: "game \<Rightarrow> real" where
  "foodDist s =
     (let dx = x (pos s) - x (food s); dy = y (pos s) - y (food s) in sqrt (dx * dx + dy * dy))"

definition foodCollision :: "(game \<Rightarrow> game) \<Rightarrow> game \<Rightarrow> game" where
  "foodCollision sp s = (if foodDist s < 15 then sp (s\<lparr>score := score s + 1\<rparr>) else s)"

definition stepper :: "(game \<Rightarrow> game) \<Rightarrow> game \<Rightarrow> game" where
  "stepper sp s = foodCollision sp (updateTail (wraparound (moveHead (updateDirection s))))"

subsection \<open>Self collision\<close>

definition distHead :: "game \<Rightarrow> nat \<Rightarrow> real" where
  "distHead s i =
     (let seg = history s ! i
      in sqrt ((x (pos s) - x seg) ^ 2 + (y (pos s) - y seg) ^ 2))"

definition segJump :: "game \<Rightarrow> nat \<Rightarrow> real" where
  "segJump s i =
     (let seg = history s ! i; prevSeg = history s ! (i - 1)
      in sqrt ((x seg - x prevSeg) ^ 2 + (y seg - y prevSeg) ^ 2))"

definition crash :: "game \<Rightarrow> nat \<Rightarrow> bool" where
  "crash s i \<longleftrightarrow> distHead s i < 5 \<and> segJump s i < 50"

text \<open>
  Step 6 in the version with the forbidden zone: the \<^verbatim>\<open>for\<close> loop goes on after
  \<^verbatim>\<open>initGame(true)\<close>, reading the trail and the head that the reset has written.
\<close>

function selfCollision :: "nat \<Rightarrow> game \<Rightarrow> game" where
  "selfCollision i s =
     (if i < length (history s) then
        selfCollision (i + SEGMENT_SPACING) (if crash s i then initGame spawnFood True s else s)
      else s)"
  by pat_completeness auto
termination
proof (relation "measure (\<lambda>(i, s). max (length (history s)) 80 - i)")
  show "wf (measure (\<lambda>(i, s). max (length (history s)) 80 - i))" by simp
next
  fix i :: nat and s :: game
  assume lt: "i < length (history s)"
  have len: "length (history (initGame spawnFood True s)) = 80"
    by (simp add: initGame_def Let_def spawnFood_def initialTail_def TAIL_LENGTH_def
        SEGMENT_SPACING_def split: prod.splits)
  have "max (length (history (if crash s i then initGame spawnFood True s else s))) 80
      \<le> max (length (history s)) 80"
    using len by simp
  moreover have "i < max (length (history s)) 80" using lt by simp
  moreover have "0 < SEGMENT_SPACING" by (simp add: SEGMENT_SPACING_def)
  ultimately have "max (length (history (if crash s i then initGame spawnFood True s else s))) 80
      - (i + SEGMENT_SPACING) < max (length (history s)) 80 - i"
    by linarith
  then show "((i + SEGMENT_SPACING, if crash s i then initGame spawnFood True s else s), i, s)
      \<in> measure (\<lambda>(i, s). max (length (history s)) 80 - i)"
    by (simp only: in_measure prod.case)
qed

declare selfCollision.simps [simp del]

text \<open>
  Step 6 in \<^verbatim>\<open>src/components/SnakeGame.tsx\<close>: after \<^verbatim>\<open>initGame(true)\<close> a \<^verbatim>\<open>return\<close>
  leaves the whole frame callback. The flag of the result says that this return was taken.
\<close>

function selfCollision_src :: "nat \<Rightarrow> game \<Rightarrow> bool \<times> game" where
  "selfCollision_src i s =
     (if i < length (history s) then
        (if crash s i then (True, initGame spawnFood_src True s)
         else selfCollision_src (i + SEGMENT_SPACING) s)
      else (False, s))"
  by pat_completeness auto
termination
  by (relation "measure (\<lambda>(i, s). length (history s) - i)") (auto simp: SEGMENT_SPACING_def)

declare selfCollision_src.simps [simp del]

subsection \<open>The frame callback\<close>

definition requestAnimationFrame :: "game \<Rightarrow> game" where
  "requestAnimationFrame s = s\<lparr>rafPending := True\<rparr>"

text \<open>
  What follows the playing branch: the bubble position is synchronised while idle, the
  canvas is drawn (no ref is written by the drawing), and the next frame is requested.
\<close>

definition renderAndSchedule :: "game \<Rightarrow> game" where
  "renderAndSchedule s =
     requestAnimationFrame (if \<not> isPlaying s then s\<lparr>headPos := pos s\<rparr> else s)"

definition loop :: "game \<Rightarrow> game" where
  "loop s =
     renderAndSchedule (if isPlaying s then selfCollision 15 (stepper spawnFood s) else s)"

definition loop_src :: "game \<Rightarrow> game" where
  "loop_src s =
     (if isPlaying s then
        (case selfCollision_src 15 (stepper spawnFood_src s) of
           (True, s') \<Rightarrow> s'
         | (False, s') \<Rightarrow> renderAndSchedule s')
      else renderAndSchedule s)"

text \<open>The browser runs a requested callback once: the request is consumed when it runs.\<close>

definition frame :: "game \<Rightarrow> game" where
  "frame s = (if rafPending s then loop (s\<lparr>rafPending := False\<rparr>) else s)"

definition frame_src :: "game \<Rightarrow> game" where
  "frame_src s = (if rafPending s then loop_src (s\<lparr>rafPending := False\<rparr>) else s)"

subsection \<open>Input and life cycle\<close>

text \<open>\<^verbatim>\<open>Math.atan2(dy, dx)\<close>, the angle of the vector \<open>(dx, dy)\<close> in \<open>[-\<pi>, \<pi>]\<close>.\<close>

definition atan2 :: "real \<Rightarrow> real \<Rightarrow> real" where
  "atan2 dy dx =
     (if dx > 0 then arctan (dy / dx)
      else if dx < 0 then (if dy \<ge> 0 then arctan (dy / dx) + pi else arctan (dy / dx) - pi)
      else if dy > 0 then pi / 2
      else if dy < 0 then - pi / 2
      else 0)"

definition handleInteraction :: "real \<Rightarrow> real \<Rightarrow> game \<Rightarrow> game" where
  "handleInteraction clientX clientY s =
     (if \<not> isPlaying s then s
      else s\<lparr>targetAngle := atan2 (clientY - y (pos s)) (clientX - x (pos s))\<rparr>)"

text \<open>
  The refs as the component creates them, with the window size \<open>(w0, h0)\<close> and the random
  stream \<open>R\<close>, and the effect that runs on mount: resize to the container, \<^verbatim>\<open>initGame()\<close>,
  and the first call of \<^verbatim>\<open>loop()\<close>.
\<close>

definition initialRefs :: "real \<Rightarrow> real \<Rightarrow> (nat \<Rightarrow> real) \<Rightarrow> game" where
  "initialRefs w0 h0 R =
     \<lparr>pos = \<lparr>x = 0, y = 0\<rparr>, angle = 0, targetAngle = 0, history = [],
      food = \<lparr>x = 0, y = 0\<rparr>, score = 0, isPlaying = False, headPos = \<lparr>x = 0, y = 0\<rparr>,
      width = w0, height = h0, mathRandom = R, draws = 0, rafPending = False\<rparr>"

definition mount :: "real \<Rightarrow> real \<Rightarrow> game \<Rightarrow> game" where
  "mount clientWidth clientHeight s =
     loop (initGame spawnFood False (handleResize clientWidth clientHeight s))"

text \<open>The effect on mount in \<^verbatim>\<open>src/components/SnakeGame.tsx\<close>.\<close>

definition mount_src :: "real \<Rightarrow> real \<Rightarrow> game \<Rightarrow> game" where
  "mount_src clientWidth clientHeight s =
     loop_src (initGame spawnFood_src False (handleResize clientWidth clientHeight s))"

text \<open>The states of a mounted component: any interleaving of frames and events.\<close>

inductive reachable :: "game \<Rightarrow> bool" where
  r_mount: "reachable (mount cw ch (initialRefs w0 h0 R))"
| r_frame: "reachable s \<Longrightarrow> reachable (frame s)"
| r_start: "reachable s \<Longrightarrow> reachable (startGame s)"
| r_input: "reachable s \<Longrightarrow> reachable (handleInteraction cx cy s)"
| r_resize: "reachable s \<Longrightarrow> reachable (handleResize cw ch s)"

text \<open>The same for the component of \<^verbatim>\<open>src/components/SnakeGame.tsx\<close>.\<close>

inductive reachable_src :: "game \<Rightarrow> bool" where
  s_mount: "reachable_src (mount_src cw ch (initialRefs w0 h0 R))"
| s_frame: "reachable_src s \<Longrightarrow> reachable_src (frame_src s)"
| s_start: "reachable_src s \<Longrightarrow> reachable_src (startGame s)"
| s_input: "reachable_src s \<Longrightarrow> reachable_src (handleInteraction cx cy s)"
| s_resize: "reachable_src s \<Longrightarrow> reachable_src (handleResize cw ch s)"

subsection \<open>The shuffle of the digest service\<close>

text \<open>
  Arrays are objects: the heap is the list of the arrays allocated so far and a reference
  is an index into it. \<^verbatim>\<open>[...array]\<close> allocates a copy; the loop then swaps in place in
  the copy, with \<open>j = Math.floor(Math.random() * (i + 1))\<close>. The destructuring assignment
  reads both elements before it writes either.
\<close>

type_synonym 'a heap = "'a list list"

definition swapAt :: "nat \<Rightarrow> nat \<Rightarrow> 'a list \<Rightarrow> 'a list" where
  "swapAt i j a = a[i := a ! j, j := a ! i]"

fun shuffleLoop :: "(nat \<Rightarrow> real) \<Rightarrow> nat \<Rightarrow> nat \<Rightarrow> nat \<Rightarrow> 'a heap \<Rightarrow> 'a heap" where
  "shuffleLoop R n newArray 0 hp = hp"
| "shuffleLoop R n newArray (Suc k) hp =
     (let i = Suc k;
          j = nat \<lfloor>R n * real (i + 1)\<rfloor>
      in shuffleLoop R (Suc n) newArray k (hp[newArray := swapAt i j (hp ! newArray)]))"

definition shuffleArray :: "(nat \<Rightarrow> real) \<Rightarrow> nat \<Rightarrow> 'a heap \<Rightarrow> nat \<Rightarrow> nat \<times> 'a heap" where
  "shuffleArray R n hp array =
     (let newArray = length hp;
          hp1 = hp @ [hp ! array]
      in (newArray, shuffleLoop R n newArray (length (hp1 ! newArray) - 1) hp1))"

subsection \<open>Auxiliary notions and example states\<close>

text \<open>What a spawner may touch: the food and the count of draws.\<close>

definition spawner :: "(game \<Rightarrow> game) \<Rightarrow> bool" where
  "spawner sp \<longleftrightarrow> (\<forall>s. \<exists>f n. sp s = s\<lparr>food := f, draws := n\<rparr>)"

text \<open>
  A window of 1024 by 768 with a container of 800 by 600, every random draw 0.97; the
  component mounted, then started, then a click straight above the head.
\<close>

definition exampleRefs :: game where
  "exampleRefs = initialRefs 1024 768 (\<lambda>n. 97 / 100)"

definition exampleIdle :: game where
  "exampleIdle = mount 800 600 exampleRefs"

definition examplePlaying :: game where
  "examplePlaying = startGame exampleIdle"


text \<open>The fields a reset writes, for a container of the given size.\<close>

definition startCorner :: "real \<Rightarrow> real \<Rightarrow> point" where
  "startCorner w h = \<lparr>x = (if w > 0 then w - 50 else 300), y = (if h > 0 then h - 30 else 500)\<rparr>"

definition resetTo :: "real \<Rightarrow> real \<Rightarrow> game \<Rightarrow> bool" where
  "resetTo w h s \<longleftrightarrow>
     pos s = startCorner w h \<and> angle s = pi \<and> targetAngle s = pi
     \<and> history s = initialTail (startCorner w h) \<and> score s = 0 \<and> \<not> isPlaying s
     \<and> width s = w \<and> height s = h"

text \<open>The bound of the trail by the cap of the current score.\<close>

definition capped :: "game \<Rightarrow> bool" where
  "capped s \<longleftrightarrow> length (history s) \<le> currentLength s"

text \<open>
  The \<open>j\<close>-th attempt of a call of the spawner that starts after \<open>n\<close> draws, whether in
  the state \<open>s\<close> it would be rejected, and the forbidden zone as a set of points.
\<close>

definition attemptX :: "(nat \<Rightarrow> real) \<Rightarrow> real \<Rightarrow> nat \<Rightarrow> nat \<Rightarrow> real" where
  "attemptX R w n j = margin + R (n + 2 * j) * (w - 2 * margin)"

definition attemptY :: "(nat \<Rightarrow> real) \<Rightarrow> real \<Rightarrow> nat \<Rightarrow> nat \<Rightarrow> real" where
  "attemptY R h n j = margin + R (Suc (n + 2 * j)) * (h - 2 * margin)"

definition rejected :: "game \<Rightarrow> nat \<Rightarrow> bool" where
  "rejected s j \<longleftrightarrow>
     inBoxX (width s) (attemptX (mathRandom s) (width s) (draws s) j)
     \<and> inBoxY (height s) (attemptY (mathRandom s) (height s) (draws s) j)"

definition inForbiddenZone :: "game \<Rightarrow> point \<Rightarrow> bool" where
  "inForbiddenZone s p \<longleftrightarrow> inBoxX (width s) (x p) \<and> inBoxY (height s) (y p)"

text \<open>Two freshly created components, every random draw one half.\<close>

definition exampleSmall :: game where
  "exampleSmall = initialRefs 300 200 (\<lambda>n. 1 / 2)"

definition exampleCentre :: game where
  "exampleCentre = initialRefs 800 600 (\<lambda>n. 1 / 2)"

text \<open>
  More example states: the first frame of the started example; containers that are
  mounted narrow and then resized, in both versions; a trail with a wrap jump at index
  15 and the head beside the point behind the jump.
\<close>

definition exampleFirstTick :: game where
  "exampleFirstTick = frame examplePlaying"

definition exampleNarrow :: game where
  "exampleNarrow = startGame (handleResize 36 600 (mount 50 600 exampleRefs))"

definition exampleNarrow_src :: game where
  "exampleNarrow_src = startGame (handleResize 36 600 (mount_src 50 600 exampleRefs))"

definition exampleCollapsed :: game where
  "exampleCollapsed = startGame (handleResize 0 600 (mount 15 600 exampleRefs))"

definition exampleWrapped :: game where
  "exampleWrapped =
     examplePlaying\<lparr>pos := \<lparr>x = 799, y = 300\<rparr>,
       history := map (\<lambda>i. if i < 15 then \<lparr>x = 2.5 * real (14 - i), y = 300\<rparr>
                             else \<lparr>x = 800 - 2.5 * real (i - 15), y = 300\<rparr>) [0 ..< 80]\<rparr>"

text \<open>The started example, whatever its other fields are.\<close>

definition atStart :: "game \<Rightarrow> bool" where
  "atStart s \<longleftrightarrow>
     pos s = \<lparr>x = 750, y = 570\<rparr> \<and> angle s = pi \<and> targetAngle s = pi
     \<and> history s = initialTail \<lparr>x = 750, y = 570\<rparr> \<and> score s = 0 \<and> isPlaying s
     \<and> width s = 800 \<and> height s = 600 \<and> mathRandom s = (\<lambda>n. 97 / 100)
     \<and> food s = \<lparr>x = 757.2, y = 563.2\<rparr>"

text \<open>The started example with the food 15 units from the next head, and with the head at the left edge.\<close>

definition exampleThreshold :: game where
  "exampleThreshold = examplePlaying\<lparr>food := \<lparr>x = 747.5, y = 555\<rparr>\<rparr>"

definition exampleAtEdge :: game where
  "exampleAtEdge = examplePlaying\<lparr>pos := \<lparr>x = 1, y = 5\<rparr>\<rparr>"

text \<open>A started snake heading left from \<open>(x0, 570)\<close> in a container \<open>w\<close> wide.\<close>

definition narrowStart :: "real \<Rightarrow> real \<Rightarrow> game \<Rightarrow> bool" where
  "narrowStart x0 w s \<longleftrightarrow>
     pos s = \<lparr>x = x0, y = 570\<rparr> \<and> angle s = pi \<and> targetAngle s = pi
     \<and> history s = initialTail \<lparr>x = x0, y = 570\<rparr> \<and> score s = 0 \<and> isPlaying s
     \<and> width s = w \<and> height s = 600"

section \<open>Properties\<close>

subsection \<open>Fields that each step leaves alone\<close>

lemma pi_not_le_zero: "\<not> pi \<le> 0"
  using pi_gt_zero by (simp add: not_le)

lemma normUp_id: "- pi < d \<Longrightarrow> normUp d = d"
  by (subst normUp.simps) simp

lemma normDown_id: "d \<le> pi \<Longrightarrow> normDown d = d"
  by (subst normDown.simps) simp

lemma spawnFood_fields [simp]:
  "pos (spawnFood s) = pos s" "angle (spawnFood s) = angle s"
  "targetAngle (spawnFood s) = targetAngle s" "history (spawnFood s) = history s"
  "score (spawnFood s) = score s" "isPlaying (spawnFood s) = isPlaying s"
  "headPos (spawnFood s) = headPos s" "width (spawnFood s) = width s"
  "height (spawnFood s) = height s" "mathRandom (spawnFood s) = mathRandom s"
  "rafPending (spawnFood s) = rafPending s"
  by (simp_all add: spawnFood_def split: prod.splits)

lemma spawnFood_src_fields [simp]:
  "pos (spawnFood_src s) = pos s" "angle (spawnFood_src s) = angle s"
  "targetAngle (spawnFood_src s) = targetAngle s" "history (spawnFood_src s) = history s"
  "score (spawnFood_src s) = score s" "isPlaying (spawnFood_src s) = isPlaying s"
  "headPos (spawnFood_src s) = headPos s" "width (spawnFood_src s) = width s"
  "height (spawnFood_src s) = height s" "mathRandom (spawnFood_src s) = mathRandom s"
  "rafPending (spawnFood_src s) = rafPending s"
  by (simp_all add: spawnFood_src_def)

lemma spawner_spawnFood: "spawner spawnFood"
  unfolding spawner_def
proof
  fix s :: game
  obtain v nx ny n where "spawnLoop (mathRandom s) (width s) (height s) False 0 0 0 (draws s) = (v, nx, ny, n)"
    by (metis prod_cases4)
  then show "\<exists>f n. spawnFood s = s\<lparr>food := f, draws := n\<rparr>"
    by (auto simp add: spawnFood_def)
qed

lemma spawner_spawnFood_src: "spawner spawnFood_src"
  unfolding spawner_def spawnFood_src_def by blast

lemma spawner_fields:
  assumes "spawner sp"
  shows "pos (sp s) = pos s" "angle (sp s) = angle s"
  "targetAngle (sp s) = targetAngle s" "history (sp s) = history s"
  "score (sp s) = score s" "isPlaying (sp s) = isPlaying s"
  "headPos (sp s) = headPos s" "width (sp s) = width s"
  "height (sp s) = height s" "mathRandom (sp s) = mathRandom s"
  "rafPending (sp s) = rafPending s"
proof -
  obtain f n where "sp s = s\<lparr>food := f, draws := n\<rparr>" using assms unfolding spawner_def by blast
  then show "pos (sp s) = pos s" "angle (sp s) = angle s"
  "targetAngle (sp s) = targetAngle s" "history (sp s) = history s"
  "score (sp s) = score s" "isPlaying (sp s) = isPlaying s"
  "headPos (sp s) = headPos s" "width (sp s) = width s"
  "height (sp s) = height s" "mathRandom (sp s) = mathRandom s"
  "rafPending (sp s) = rafPending s" by simp_all
qed

lemma initGame_fields:
  assumes "spawner sp"
  shows "pos (initGame sp b s) = \<lparr>x = startX s, y = startY s\<rparr>"
  "angle (initGame sp b s) = pi" "targetAngle (initGame sp b s) = pi"
  "history (initGame sp b s) = initialTail \<lparr>x = startX s, y = startY s\<rparr>"
  "score (initGame sp b s) = 0"
  "isPlaying (initGame sp b s) = (if b then False else isPlaying s)"
  "headPos (initGame sp b s) = \<lparr>x = startX s, y = startY s\<rparr>"
  "width (initGame sp b s) = width s" "height (initGame sp b s) = height s"
  "mathRandom (initGame sp b s) = mathRandom s" "rafPending (initGame sp b s) = rafPending s"
  by (simp_all add: initGame_def Let_def spawner_fields[OF assms])

lemma length_initialTail [simp]: "length (initialTail p) = 80"
  by (simp add: initialTail_def TAIL_LENGTH_def SEGMENT_SPACING_def)

lemma updateDirection_fields [simp]:
  "pos (updateDirection s) = pos s" "targetAngle (updateDirection s) = targetAngle s"
  "history (updateDirection s) = history s" "food (updateDirection s) = food s"
  "score (updateDirection s) = score s" "isPlaying (updateDirection s) = isPlaying s"
  "headPos (updateDirection s) = headPos s" "width (updateDirection s) = width s"
  "height (updateDirection s) = height s" "mathRandom (updateDirection s) = mathRandom s"
  "draws (updateDirection s) = draws s" "rafPending (updateDirection s) = rafPending s"
  by (simp_all add: updateDirection_def)

lemma moveHead_fields [simp]:
  "angle (moveHead s) = angle s" "targetAngle (moveHead s) = targetAngle s"
  "history (moveHead s) = history s" "food (moveHead s) = food s"
  "score (moveHead s) = score s" "isPlaying (moveHead s) = isPlaying s"
  "headPos (moveHead s) = headPos s" "width (moveHead s) = width s"
  "height (moveHead s) = height s" "mathRandom (moveHead s) = mathRandom s"
  "draws (moveHead s) = draws s" "rafPending (moveHead s) = rafPending s"
  by (simp_all add: moveHead_def)

lemma wraparound_fields [simp]:
  "angle (wraparound s) = angle s" "targetAngle (wraparound s) = targetAngle s"
  "history (wraparound s) = history s" "food (wraparound s) = food s"
  "score (wraparound s) = score s" "isPlaying (wraparound s) = isPlaying s"
  "headPos (wraparound s) = headPos s" "width (wraparound s) = width s"
  "height (wraparound s) = height s" "mathRandom (wraparound s) = mathRandom s"
  "draws (wraparound s) = draws s" "rafPending (wraparound s) = rafPending s"
  by (simp_all add: wraparound_def)

lemma updateTail_fields [simp]:
  "pos (updateTail s) = pos s"
  "angle (updateTail s) = angle s" "targetAngle (updateTail s) = targetAngle s"
  "food (updateTail s) = food s"
  "score (updateTail s) = score s" "isPlaying (updateTail s) = isPlaying s"
  "headPos (updateTail s) = headPos s" "width (updateTail s) = width s"
  "height (updateTail s) = height s" "mathRandom (updateTail s) = mathRandom s"
  "draws (updateTail s) = draws s" "rafPending (updateTail s) = rafPending s"
  by (simp_all add: updateTail_def Let_def)

lemma foodCollision_fields:
  assumes "spawner sp"
  shows "pos (foodCollision sp s) = pos s"
  "angle (foodCollision sp s) = angle s" "targetAngle (foodCollision sp s) = targetAngle s"
  "history (foodCollision sp s) = history s"
  "isPlaying (foodCollision sp s) = isPlaying s"
  "headPos (foodCollision sp s) = headPos s" "width (foodCollision sp s) = width s"
  "height (foodCollision sp s) = height s" "mathRandom (foodCollision sp s) = mathRandom s"
  "rafPending (foodCollision sp s) = rafPending s"
  by (simp_all add: foodCollision_def spawner_fields[OF assms])

lemma stepper_fields:
  assumes "spawner sp"
  shows "pos (stepper sp s) = pos (wraparound (moveHead (updateDirection s)))"
  "angle (stepper sp s) = angle (updateDirection s)" "targetAngle (stepper sp s) = targetAngle s"
  "history (stepper sp s) = history (updateTail (wraparound (moveHead (updateDirection s))))"
  "isPlaying (stepper sp s) = isPlaying s"
  "headPos (stepper sp s) = headPos s" "width (stepper sp s) = width s"
  "height (stepper sp s) = height s" "mathRandom (stepper sp s) = mathRandom s"
  "rafPending (stepper sp s) = rafPending s"
  by (simp_all add: stepper_def foodCollision_fields[OF assms])

lemma renderAndSchedule_fields [simp]:
  "pos (renderAndSchedule s) = pos s"
  "angle (renderAndSchedule s) = angle s" "targetAngle (renderAndSchedule s) = targetAngle s"
  "history (renderAndSchedule s) = history s" "food (renderAndSchedule s) = food s"
  "score (renderAndSchedule s) = score s" "isPlaying (renderAndSchedule s) = isPlaying s"
  "width (renderAndSchedule s) = width s"
  "height (renderAndSchedule s) = height s" "mathRandom (renderAndSchedule s) = mathRandom s"
  "draws (renderAndSchedule s) = draws s" "rafPending (renderAndSchedule s) = True"
  by (simp_all add: renderAndSchedule_def requestAnimationFrame_def)

lemma exampleIdle_fields:
  "pos exampleIdle = \<lparr>x = 750, y = 570\<rparr>" "angle exampleIdle = pi"
  "targetAngle exampleIdle = pi" "score exampleIdle = 0" "isPlaying exampleIdle = False"
  "history exampleIdle = initialTail \<lparr>x = 750, y = 570\<rparr>"
  "width exampleIdle = 800" "height exampleIdle = 600" "rafPending exampleIdle = True"
  "mathRandom exampleIdle = (\<lambda>n. 97 / 100)"
  by (simp_all add: exampleIdle_def mount_def loop_def initGame_fields[OF spawner_spawnFood]
      handleResize_def exampleRefs_def initialRefs_def startX_def startY_def)

subsection \<open>Heading\<close>






subsection \<open>The shuffle\<close>

lemma swapAt_mset: "i < length a \<Longrightarrow> j < length a \<Longrightarrow> mset (swapAt i j a) = mset a"
  unfolding swapAt_def by (rule mset_swap)

lemma swapAt_length: "length (swapAt i j a) = length a"
  by (simp add: swapAt_def)

lemma floor_index_le:
  assumes "0 \<le> r" "r < 1"
  shows "nat \<lfloor>r * real (Suc i)\<rfloor> \<le> i"
proof -
  have "r * real (Suc i) < real (Suc i)" using assms by simp
  then have "\<lfloor>r * real (Suc i)\<rfloor> < int (Suc i)" by (simp add: floor_less_iff)
  then show ?thesis by simp
qed

lemma shuffleLoop_spec:
  assumes "\<forall>m. 0 \<le> R m \<and> R m < 1"
  shows "newArray < length hp \<Longrightarrow> k < length (hp ! newArray) \<Longrightarrow>
     length (shuffleLoop R n newArray k hp) = length hp
     \<and> mset (shuffleLoop R n newArray k hp ! newArray) = mset (hp ! newArray)
     \<and> (\<forall>b. b \<noteq> newArray \<longrightarrow> shuffleLoop R n newArray k hp ! b = hp ! b)"
proof (induction k arbitrary: n hp)
  case 0
  then show ?case by simp
next
  case (Suc k)
  let ?j = "nat \<lfloor>R n * real (Suc k + 1)\<rfloor>"
  let ?hp = "hp[newArray := swapAt (Suc k) ?j (hp ! newArray)]"
  have j: "?j \<le> Suc k" using floor_index_le[of "R n" "Suc k"] assms by simp
  have l: "newArray < length ?hp" using Suc.prems by simp
  have e: "?hp ! newArray = swapAt (Suc k) ?j (hp ! newArray)" using Suc.prems by simp
  have k: "k < length (?hp ! newArray)" using Suc.prems by (simp add: e swapAt_length)
  have m: "mset (?hp ! newArray) = mset (hp ! newArray)"
    unfolding e using Suc.prems j by (intro swapAt_mset) simp_all
  from Suc.IH[OF l k, of "Suc n"] m show ?case
    by (simp add: Let_def)
qed

text \<open>
  Claim C10. With every random draw in \<open>[0, 1)\<close>, \<^verbatim>\<open>shuffleArray\<close> returns a reference to
  a new array that is a permutation of the input array (same multiset of elements, same
  length), and the input array, like every other array of the heap, is left as it was.
\<close>

theorem shuffleArray_permutes_copy:
  assumes "array < length hp" and "\<forall>m. 0 \<le> R m \<and> R m < 1"
  shows "fst (shuffleArray R n hp array) \<noteq> array
     \<and> mset (snd (shuffleArray R n hp array) ! fst (shuffleArray R n hp array)) = mset (hp ! array)
     \<and> length (snd (shuffleArray R n hp array) ! fst (shuffleArray R n hp array)) = length (hp ! array)
     \<and> snd (shuffleArray R n hp array) ! array = hp ! array
     \<and> (\<forall>b < length hp. snd (shuffleArray R n hp array) ! b = hp ! b)"
proof -
  let ?hp1 = "hp @ [hp ! array]"
  let ?p = "length hp"
  let ?res = "shuffleLoop R n ?p (length (?hp1 ! ?p) - 1) ?hp1"
  have r: "shuffleArray R n hp array = (?p, ?res)" by (simp add: shuffleArray_def Let_def)
  show ?thesis
  proof (cases "hp ! array = []")
    case True
    then show ?thesis using assms(1) by (simp add: r nth_append)
  next
    case False
    have p: "?p < length ?hp1" by simp
    have k: "length (?hp1 ! ?p) - 1 < length (?hp1 ! ?p)" using False by simp
    from shuffleLoop_spec[OF assms(2) p k, of n]
    have s: "length ?res = length ?hp1" "mset (?res ! ?p) = mset (?hp1 ! ?p)"
      "\<forall>b. b \<noteq> ?p \<longrightarrow> ?res ! b = ?hp1 ! b" by blast+
    have "mset (?res ! ?p) = mset (hp ! array)" using s(2) by simp
    moreover have "length (?res ! ?p) = length (hp ! array)"
      using calculation by (metis size_mset)
    moreover have "\<forall>b < length hp. ?res ! b = hp ! b" using s(3) by (simp add: nth_append)
    ultimately show ?thesis using assms(1) by (simp add: r)
  qed
qed

theorem shuffleArray_permutes_copy_witness:
  "(0::nat) < length [[1, 2, 3::nat]] \<and> (\<forall>m::nat. (0::real) \<le> 1 / 2 \<and> (1::real) / 2 < 1)
   \<and> shuffleArray (\<lambda>m. 1 / 2) 0 [[1, 2, 3::nat]] 0 = (1, [[1, 2, 3], [1, 3, 2]])
   \<and> mset [1, 3, 2::nat] = mset [1, 2, 3]"
  using shuffleArray_permutes_copy[of 0 "[[1, 2, 3::nat]]" "\<lambda>m. 1 / 2" 0]
  by (simp add: shuffleArray_def swapAt_def numeral_3_eq_3)

subsection \<open>The self-collision loop\<close>

lemma selfCollision_end: "\<not> i < length (history s) \<Longrightarrow> selfCollision i s = s"
  by (subst selfCollision.simps) simp

lemma selfCollision_step:
  "i < length (history s) \<Longrightarrow>
   selfCollision i s =
     selfCollision (i + SEGMENT_SPACING) (if crash s i then initGame spawnFood True s else s)"
  by (subst selfCollision.simps) simp

lemma selfCollision_src_end: "\<not> i < length (history s) \<Longrightarrow> selfCollision_src i s = (False, s)"
  by (subst selfCollision_src.simps) simp

lemma selfCollision_src_crash:
  "i < length (history s) \<Longrightarrow> crash s i \<Longrightarrow>
   selfCollision_src i s = (True, initGame spawnFood_src True s)"
  by (subst selfCollision_src.simps) simp

lemma selfCollision_src_skip:
  "i < length (history s) \<Longrightarrow> \<not> crash s i \<Longrightarrow>
   selfCollision_src i s = selfCollision_src (i + SEGMENT_SPACING) s"
  by (subst selfCollision_src.simps) simp

lemma selfCollision_invariant:
  assumes "P s" and "\<And>t. P t \<Longrightarrow> P (initGame spawnFood True t)"
  shows "P (selfCollision i s)"
  using assms(1)
proof (induction i s rule: selfCollision.induct)
  case (1 i s)
  show ?case
  proof (cases "i < length (history s)")
    case True
    have "P (if crash s i then initGame spawnFood True s else s)"
      using "1.prems" assms(2) by simp
    from "1.IH"[OF True this] show ?thesis using True by (simp add: selfCollision_step)
  next
    case False
    then show ?thesis using "1.prems" by (simp add: selfCollision_end)
  qed
qed

lemma selfCollision_not_playing: "\<not> isPlaying s \<Longrightarrow> \<not> isPlaying (selfCollision i s)"
  by (rule selfCollision_invariant[where P = "\<lambda>t. \<not> isPlaying t"])
    (simp_all add: initGame_fields[OF spawner_spawnFood])

lemma selfCollision_still_playing:
  "isPlaying (selfCollision i s) \<Longrightarrow> selfCollision i s = s"
proof (induction i s rule: selfCollision.induct)
  case (1 i s)
  show ?case
  proof (cases "i < length (history s)")
    case True
    note st = selfCollision_step[OF True]
    show ?thesis
    proof (cases "crash s i")
      case True
      have "\<not> isPlaying (initGame spawnFood True s)"
        by (simp add: initGame_fields[OF spawner_spawnFood])
      then have "\<not> isPlaying (selfCollision (i + SEGMENT_SPACING) (initGame spawnFood True s))"
        by (rule selfCollision_not_playing)
      then show ?thesis using "1.prems" True st by simp
    next
      case False
      then have e: "selfCollision i s = selfCollision (i + SEGMENT_SPACING) s" using st by simp
      have "selfCollision (i + SEGMENT_SPACING) s = s"
        using "1.IH"[OF True] False "1.prems" e by simp
      then show ?thesis using e by simp
    qed
  next
    case False
    then show ?thesis by (simp add: selfCollision_end)
  qed
qed

lemma selfCollision_no_crash:
  "(\<And>j. i \<le> j \<Longrightarrow> j < length (history s) \<Longrightarrow> \<not> crash s j) \<Longrightarrow> selfCollision i s = s"
proof (induction i s rule: selfCollision.induct)
  case (1 i s)
  show ?case
  proof (cases "i < length (history s)")
    case True
    have nc: "\<not> crash s i" using "1.prems"[of i] True by simp
    then have e: "selfCollision i s = selfCollision (i + SEGMENT_SPACING) s"
      using selfCollision_step[OF True] by simp
    have "selfCollision (i + SEGMENT_SPACING) s = s"
      using "1.IH"[OF True] nc "1.prems" by simp
    then show ?thesis using e by simp
  next
    case False
    then show ?thesis by (simp add: selfCollision_end)
  qed
qed

lemma selfCollision_src_no_crash:
  "(\<And>j. i \<le> j \<Longrightarrow> j < length (history s) \<Longrightarrow> \<not> crash s j) \<Longrightarrow>
   selfCollision_src i s = (False, s)"
proof (induction i s rule: selfCollision_src.induct)
  case (1 i s)
  show ?case
  proof (cases "i < length (history s)")
    case True
    have nc: "\<not> crash s i" using "1.prems"[of i] True by simp
    then have e: "selfCollision_src i s = selfCollision_src (i + SEGMENT_SPACING) s"
      using selfCollision_src_skip[OF True] by simp
    have "selfCollision_src (i + SEGMENT_SPACING) s = (False, s)"
      using "1.IH"[OF True nc] "1.prems" by simp
    then show ?thesis using e by simp
  next
    case False
    then show ?thesis by (simp add: selfCollision_src_end)
  qed
qed

lemma resetTo_initGame:
  assumes "spawner sp"
  shows "resetTo (width s) (height s) (initGame sp True s)"
  by (simp add: resetTo_def initGame_fields[OF assms] startCorner_def startX_def startY_def)

lemma selfCollision_resetTo: "resetTo w h s \<Longrightarrow> resetTo w h (selfCollision i s)"
proof (rule selfCollision_invariant[where P = "resetTo w h"])
  fix t assume "resetTo w h t"
  then have "width t = w" "height t = h" by (simp_all add: resetTo_def)
  then show "resetTo w h (initGame spawnFood True t)"
    using resetTo_initGame[OF spawner_spawnFood, of t] by simp
qed

lemma selfCollision_crash_resets:
  "i + SEGMENT_SPACING * k < length (history s) \<Longrightarrow> crash s (i + SEGMENT_SPACING * k) \<Longrightarrow>
   resetTo (width s) (height s) (selfCollision i s)"
proof (induction k arbitrary: i)
  case 0
  then have l: "i < length (history s)" and c: "crash s i" by simp_all
  show ?case
    unfolding selfCollision_step[OF l] using c
    by (simp add: selfCollision_resetTo resetTo_initGame[OF spawner_spawnFood])
next
  case (Suc k)
  have l: "i < length (history s)" using Suc.prems(1) by simp
  show ?case
  proof (cases "crash s i")
    case True
    then show ?thesis unfolding selfCollision_step[OF l]
      by (simp add: selfCollision_resetTo resetTo_initGame[OF spawner_spawnFood])
  next
    case False
    have a: "i + SEGMENT_SPACING + SEGMENT_SPACING * k < length (history s)"
      using Suc.prems(1) by (simp add: algebra_simps)
    have b: "crash s (i + SEGMENT_SPACING + SEGMENT_SPACING * k)"
      using Suc.prems(2) by (simp add: algebra_simps)
    from Suc.IH[OF a b] False show ?thesis unfolding selfCollision_step[OF l] by simp
  qed
qed

lemma selfCollision_src_crash_resets:
  "i + SEGMENT_SPACING * k < length (history s) \<Longrightarrow> crash s (i + SEGMENT_SPACING * k) \<Longrightarrow>
   fst (selfCollision_src i s) \<and> resetTo (width s) (height s) (snd (selfCollision_src i s))
   \<and> rafPending (snd (selfCollision_src i s)) = rafPending s"
proof (induction k arbitrary: i)
  case 0
  then have l: "i < length (history s)" and c: "crash s i" by simp_all
  show ?case
    unfolding selfCollision_src_crash[OF l c]
    by (simp add: resetTo_initGame[OF spawner_spawnFood_src] initGame_fields[OF spawner_spawnFood_src])
next
  case (Suc k)
  have l: "i < length (history s)" using Suc.prems(1) by simp
  show ?case
  proof (cases "crash s i")
    case True
    then show ?thesis unfolding selfCollision_src_crash[OF l True]
      by (simp add: resetTo_initGame[OF spawner_spawnFood_src] initGame_fields[OF spawner_spawnFood_src])
  next
    case False
    have a: "i + SEGMENT_SPACING + SEGMENT_SPACING * k < length (history s)"
      using Suc.prems(1) by (simp add: algebra_simps)
    have b: "crash s (i + SEGMENT_SPACING + SEGMENT_SPACING * k)"
      using Suc.prems(2) by (simp add: algebra_simps)
    from Suc.IH[OF a b] show ?thesis unfolding selfCollision_src_skip[OF l False] .
  qed
qed

subsection \<open>Trail, food check, wrap and reset\<close>

lemma currentLength_eq: "currentLength s = (20 + score s * 10) * 4"
  by (simp add: currentLength_def TAIL_LENGTH_def GROWTH_PER_FOOD_def SEGMENT_SPACING_def)

lemma capped_initGame: "spawner sp \<Longrightarrow> capped (initGame sp b s)"
  by (simp add: capped_def currentLength_eq initGame_fields)

lemma length_updateTail:
  "length (history (updateTail s)) =
     (if length (history s) < currentLength s then length (history s) + 1 else length (history s))"
  by (simp add: updateTail_def Let_def)

lemma capped_updateTail: "capped s \<Longrightarrow> capped (updateTail s)"
  by (simp add: capped_def length_updateTail currentLength_eq)

lemma capped_foodCollision:
  assumes "spawner sp" "capped s"
  shows "capped (foodCollision sp s)"
  using assms(2)
  by (simp add: capped_def currentLength_eq foodCollision_def spawner_fields[OF assms(1)])

lemma capped_stepper:
  assumes "spawner sp" "capped s"
  shows "capped (stepper sp s)"
proof -
  have "capped (wraparound (moveHead (updateDirection s)))"
    using assms(2) by (simp add: capped_def currentLength_eq)
  then show ?thesis unfolding stepper_def
    by (intro capped_foodCollision[OF assms(1)] capped_updateTail)
qed

lemma capped_selfCollision: "capped s \<Longrightarrow> capped (selfCollision i s)"
  by (rule selfCollision_invariant[where P = capped]) (simp_all add: capped_initGame spawner_spawnFood)

lemma capped_renderAndSchedule: "capped s \<Longrightarrow> capped (renderAndSchedule s)"
  by (simp add: capped_def currentLength_eq)

lemma capped_loop: "capped s \<Longrightarrow> capped (loop s)"
  unfolding loop_def
  by (auto intro!: capped_renderAndSchedule capped_selfCollision capped_stepper spawner_spawnFood)

lemma capped_frame: "capped s \<Longrightarrow> capped (frame s)"
proof -
  assume c: "capped s"
  have "capped (s\<lparr>rafPending := False\<rparr>)" using c by (simp add: capped_def currentLength_eq)
  then show ?thesis using c by (simp add: frame_def capped_loop)
qed

lemma reachable_capped: "reachable s \<Longrightarrow> capped s"
proof (induction rule: reachable.induct)
  case (r_mount cw ch w0 h0 R)
  show ?case unfolding mount_def by (intro capped_loop capped_initGame spawner_spawnFood)
next
  case (r_frame s)
  then show ?case by (simp add: capped_frame)
next
  case (r_start s)
  then show ?case by (simp add: capped_def currentLength_eq startGame_def)
next
  case (r_input s cx cy)
  then show ?case by (simp add: capped_def currentLength_eq handleInteraction_def)
next
  case (r_resize s cw ch)
  then show ?case by (simp add: capped_def currentLength_eq handleResize_def)
qed

lemma foodDist_updateTail [simp]: "foodDist (updateTail s) = foodDist s"
  by (simp add: foodDist_def)

lemma food_spawnFood_cong:
  "mathRandom t = mathRandom s \<Longrightarrow> width t = width s \<Longrightarrow> height t = height s \<Longrightarrow>
   draws t = draws s \<Longrightarrow>
   food (spawnFood t) = food (spawnFood s) \<and> draws (spawnFood t) = draws (spawnFood s)"
  by (simp add: spawnFood_def split: prod.splits)

lemma food_spawnFood_src_cong:
  "mathRandom t = mathRandom s \<Longrightarrow> width t = width s \<Longrightarrow> height t = height s \<Longrightarrow>
   draws t = draws s \<Longrightarrow>
   food (spawnFood_src t) = food (spawnFood_src s) \<and> draws (spawnFood_src t) = draws (spawnFood_src s)"
  by (simp add: spawnFood_src_def)

text \<open>
  Claim C5. At a sampled index whose point lies more than 50 units from its predecessor
  in the trail, the reset branch is not taken, however close the head is: both versions
  of the loop go on to the next sampled index with the state unchanged.
\<close>

theorem wrap_jump_is_no_collision:
  assumes "i < length (history s)" and "50 < segJump s i"
  shows "\<not> crash s i
     \<and> selfCollision i s = selfCollision (i + SEGMENT_SPACING) s
     \<and> selfCollision_src i s = selfCollision_src (i + SEGMENT_SPACING) s"
proof -
  have nc: "\<not> crash s i" using assms(2) by (simp add: crash_def)
  then show ?thesis
    using selfCollision_step[OF assms(1)] selfCollision_src_skip[OF assms(1) nc] by simp
qed

lemma loop_always_schedules: "rafPending (loop s)"
  by (simp add: loop_def)

lemma frame_keeps_pending: "rafPending (frame s) = rafPending s"
  by (simp add: frame_def loop_always_schedules)

lemma reachable_pending: "reachable s \<Longrightarrow> rafPending s"
proof (induction rule: reachable.induct)
  case (r_mount cw ch w0 h0 R)
  show ?case by (simp add: mount_def loop_always_schedules)
next
  case (r_frame s)
  then show ?case by (simp add: frame_keeps_pending)
next
  case (r_start s)
  then show ?case by (simp add: startGame_def)
next
  case (r_input s cx cy)
  then show ?case by (simp add: handleInteraction_def)
next
  case (r_resize s cw ch)
  then show ?case by (simp add: handleResize_def)
qed

lemma crash_stepper_src: "crash (stepper spawnFood_src s) i = crash (stepper spawnFood s) i"
  by (simp add: crash_def distHead_def segJump_def stepper_fields[OF spawner_spawnFood]
      stepper_fields[OF spawner_spawnFood_src])

lemma loop_src_crash_stops:
  assumes "isPlaying s"
    and "15 + SEGMENT_SPACING * k < length (history (stepper spawnFood_src s))"
    and "crash (stepper spawnFood_src s) (15 + SEGMENT_SPACING * k)"
  shows "rafPending (loop_src s) = rafPending s"
    and "resetTo (width s) (height s) (loop_src s)"
proof -
  let ?r = "selfCollision_src 15 (stepper spawnFood_src s)"
  from selfCollision_src_crash_resets[OF assms(2,3)]
  have f: "fst ?r" and r: "resetTo (width s) (height s) (snd ?r)"
    and p: "rafPending (snd ?r) = rafPending s"
    by (simp_all add: stepper_fields[OF spawner_spawnFood_src])
  have "loop_src s = snd ?r" using assms(1) f by (cases ?r) (simp add: loop_src_def)
  then show "rafPending (loop_src s) = rafPending s" "resetTo (width s) (height s) (loop_src s)"
    using r p by simp_all
qed

lemma resetTo_renderAndSchedule: "resetTo w h s \<Longrightarrow> resetTo w h (renderAndSchedule s)"
  by (simp add: resetTo_def)

text \<open>
  Claim C4, as amended. When a playing tick finds a sampled trail point within 5 units of
  the head whose predecessor is less than 50 units from it, the frame callback of either
  version ends with the head at the start corner, which is \<open>(width - 50, height - 30)\<close>
  for a positive width and height and uses 300 and 500 in place of a coordinate whose
  dimension is not positive, with angle and target angle \<open>\<pi>\<close>, the initial straight trail,
  score 0 and the play flag false.
\<close>

theorem collision_resets_game:
  assumes "isPlaying s"
    and "15 + SEGMENT_SPACING * k < length (history (stepper spawnFood s))"
    and "crash (stepper spawnFood s) (15 + SEGMENT_SPACING * k)"
  shows "pos (loop s) = \<lparr>x = (if width s > 0 then width s - 50 else 300),
                          y = (if height s > 0 then height s - 30 else 500)\<rparr>
     \<and> angle (loop s) = pi \<and> targetAngle (loop s) = pi
     \<and> history (loop s) = initialTail (pos (loop s))
     \<and> score (loop s) = 0 \<and> \<not> isPlaying (loop s)
     \<and> pos (loop_src s) = pos (loop s) \<and> angle (loop_src s) = pi \<and> targetAngle (loop_src s) = pi
     \<and> history (loop_src s) = initialTail (pos (loop s))
     \<and> score (loop_src s) = 0 \<and> \<not> isPlaying (loop_src s)"
proof -
  have "resetTo (width (stepper spawnFood s)) (height (stepper spawnFood s))
          (selfCollision 15 (stepper spawnFood s))"
    by (rule selfCollision_crash_resets[OF assms(2,3)])
  then have a: "resetTo (width s) (height s) (loop s)"
    using assms(1) by (simp add: loop_def resetTo_renderAndSchedule stepper_fields[OF spawner_spawnFood])
  have l: "15 + SEGMENT_SPACING * k < length (history (stepper spawnFood_src s))"
    using assms(2) by (simp add: stepper_fields[OF spawner_spawnFood] stepper_fields[OF spawner_spawnFood_src])
  have c: "crash (stepper spawnFood_src s) (15 + SEGMENT_SPACING * k)"
    using assms(3) by (simp add: crash_stepper_src)
  have b: "resetTo (width s) (height s) (loop_src s)"
    by (rule loop_src_crash_stops(2)[OF assms(1) l c])
  show ?thesis using a b by (simp add: resetTo_def startCorner_def)
qed

lemma length_history_stepper:
  "spawner sp \<Longrightarrow> length (history (stepper sp s)) =
     (if length (history s) < currentLength s then length (history s) + 1 else length (history s))"
  by (simp add: stepper_fields length_updateTail currentLength_eq)

lemma selfCollision_cases:
  "selfCollision i s = s \<or> resetTo (width s) (height s) (selfCollision i s)"
proof (induction i s rule: selfCollision.induct)
  case (1 i s)
  show ?case
  proof (cases "i < length (history s)")
    case True
    note st = selfCollision_step[OF True]
    show ?thesis
    proof (cases "crash s i")
      case True
      have "resetTo (width s) (height s) (selfCollision (i + SEGMENT_SPACING) (initGame spawnFood True s))"
        by (intro selfCollision_resetTo resetTo_initGame spawner_spawnFood)
      then show ?thesis using st True by simp
    next
      case False
      then show ?thesis using "1.IH"[OF True] st by simp
    qed
  next
    case False
    then show ?thesis by (simp add: selfCollision_end)
  qed
qed

lemma selfCollision_src_cases:
  "selfCollision_src i s = (False, s)
   \<or> (fst (selfCollision_src i s) \<and> resetTo (width s) (height s) (snd (selfCollision_src i s)))"
proof (induction i s rule: selfCollision_src.induct)
  case (1 i s)
  show ?case
  proof (cases "i < length (history s)")
    case True
    show ?thesis
    proof (cases "crash s i")
      case c: True
      show ?thesis unfolding selfCollision_src_crash[OF True c]
        by (simp add: resetTo_initGame[OF spawner_spawnFood_src])
    next
      case c: False
      show ?thesis unfolding selfCollision_src_skip[OF True c] using "1.IH"[OF True c] .
    qed
  next
    case False
    then show ?thesis by (simp add: selfCollision_src_end)
  qed
qed

lemma capped_resetTo: "resetTo w h s \<Longrightarrow> capped s"
  by (simp add: resetTo_def capped_def currentLength_eq)

lemma capped_loop_src: "capped s \<Longrightarrow> capped (loop_src s)"
proof -
  assume c: "capped s"
  show ?thesis
  proof (cases "isPlaying s")
    case True
    let ?t = "stepper spawnFood_src s"
    have ct: "capped ?t" by (rule capped_stepper[OF spawner_spawnFood_src c])
    from selfCollision_src_cases[of 15 ?t] show ?thesis
    proof
      assume "selfCollision_src 15 ?t = (False, ?t)"
      then show ?thesis using True ct by (simp add: loop_src_def capped_renderAndSchedule)
    next
      assume a: "fst (selfCollision_src 15 ?t) \<and>
        resetTo (width ?t) (height ?t) (snd (selfCollision_src 15 ?t))"
      then have "loop_src s = snd (selfCollision_src 15 ?t)"
        using True by (cases "selfCollision_src 15 ?t") (simp add: loop_src_def)
      moreover have "capped (snd (selfCollision_src 15 ?t))"
        using a by (blast intro: capped_resetTo)
      ultimately show ?thesis by simp
    qed
  next
    case False
    then show ?thesis using c by (simp add: loop_src_def capped_renderAndSchedule)
  qed
qed

lemma capped_frame_src: "capped s \<Longrightarrow> capped (frame_src s)"
proof -
  assume c: "capped s"
  have "capped (s\<lparr>rafPending := False\<rparr>)" using c by (simp add: capped_def currentLength_eq)
  then show ?thesis using c by (simp add: frame_src_def capped_loop_src)
qed

lemma reachable_src_capped: "reachable_src s \<Longrightarrow> capped s"
proof (induction rule: reachable_src.induct)
  case (s_mount cw ch w0 h0 R)
  show ?case unfolding mount_src_def by (intro capped_loop_src capped_initGame spawner_spawnFood_src)
next
  case (s_frame s)
  then show ?case by (simp add: capped_frame_src)
next
  case (s_start s)
  then show ?case by (simp add: capped_def currentLength_eq startGame_def)
next
  case (s_input s cx cy)
  then show ?case by (simp add: capped_def currentLength_eq handleInteraction_def)
next
  case (s_resize s cw ch)
  then show ?case by (simp add: capped_def currentLength_eq handleResize_def)
qed

text \<open>
  Claim C2. In every state a mounted component of either version can reach, the trail
  holds at most \<open>(20 + score * 10) * 4\<close> points; the tail update of a tick puts the new
  head in front and, when the trail is at the cap, drops the oldest point from the back,
  so the bound holds again after the update.
\<close>

theorem trail_never_exceeds_cap:
  assumes "reachable s \<or> reachable_src s"
  shows "length (history s) \<le> (20 + score s * 10) * 4
     \<and> history (updateTail s) =
         (if length (history s) = (20 + score s * 10) * 4 then pos s # butlast (history s)
          else pos s # history s)
     \<and> length (history (updateTail s)) \<le> (20 + score s * 10) * 4"
proof -
  have "capped s" using assms reachable_capped reachable_src_capped by blast
  then have c: "length (history s) \<le> (20 + score s * 10) * 4"
    by (simp add: capped_def currentLength_eq)
  have "history s \<noteq> []" if "length (history s) = (20 + score s * 10) * 4"
    using that by auto
  then have "history (updateTail s) =
         (if length (history s) = (20 + score s * 10) * 4 then pos s # butlast (history s)
          else pos s # history s)"
    using c by (auto simp add: updateTail_def Let_def currentLength_eq)
  moreover have "length (history (updateTail s)) \<le> (20 + score s * 10) * 4"
    using c by (simp add: length_updateTail currentLength_eq)
  ultimately show ?thesis using c by blast
qed

lemma length_history_loop:
  "length (history (loop s)) \<le> max 80 (length (history s) + 1)"
proof (cases "isPlaying s")
  case True
  let ?t = "stepper spawnFood s"
  have l: "length (history ?t) \<le> length (history s) + 1"
    by (simp add: length_history_stepper[OF spawner_spawnFood])
  from selfCollision_cases[of 15 ?t] show ?thesis
  proof
    assume "selfCollision 15 ?t = ?t"
    then show ?thesis using True l by (simp add: loop_def)
  next
    assume "resetTo (width ?t) (height ?t) (selfCollision 15 ?t)"
    then have "length (history (selfCollision 15 ?t)) = 80" by (simp add: resetTo_def)
    then show ?thesis using True by (simp add: loop_def)
  qed
next
  case False
  then show ?thesis by (simp add: loop_def)
qed

lemma length_history_frame:
  "length (history (frame s)) \<le> max 80 (length (history s)) + 1"
proof (cases "rafPending s")
  case True
  have "length (history (loop (s\<lparr>rafPending := False\<rparr>))) \<le> max 80 (length (history s) + 1)"
    using length_history_loop[of "s\<lparr>rafPending := False\<rparr>"] by simp
  also have "\<dots> \<le> max 80 (length (history s)) + 1" by simp
  finally show ?thesis using True by (simp add: frame_def)
next
  case False
  then show ?thesis by (simp add: frame_def)
qed

lemma length_history_frames:
  "length (history ((frame ^^ n) s)) \<le> max 80 (length (history s)) + n"
proof (induction n)
  case 0
  then show ?case by simp
next
  case (Suc n)
  have "length (history (frame ((frame ^^ n) s))) \<le> max 80 (length (history ((frame ^^ n) s))) + 1"
    by (rule length_history_frame)
  then show ?case using Suc by simp
qed

lemma loop_src_still_playing:
  assumes "isPlaying s" and "isPlaying (loop_src s)"
  shows "history (loop_src s) = history (stepper spawnFood_src s)"
proof -
  let ?t = "stepper spawnFood_src s"
  from selfCollision_src_cases[of 15 ?t] show ?thesis
  proof
    assume "selfCollision_src 15 ?t = (False, ?t)"
    then show ?thesis using assms(1) by (simp add: loop_src_def)
  next
    assume a: "fst (selfCollision_src 15 ?t) \<and>
        resetTo (width ?t) (height ?t) (snd (selfCollision_src 15 ?t))"
    then have "loop_src s = snd (selfCollision_src 15 ?t)"
      using assms(1) by (cases "selfCollision_src 15 ?t") (simp add: loop_src_def)
    then have "\<not> isPlaying (loop_src s)" using a by (simp add: resetTo_def)
    then show ?thesis using assms(2) by simp
  qed
qed

lemma loop_still_playing:
  assumes "isPlaying s" and "isPlaying (loop s)"
  shows "loop s = renderAndSchedule (stepper spawnFood s)"
proof -
  have "isPlaying (selfCollision 15 (stepper spawnFood s))"
    using assms by (simp add: loop_def)
  then have "selfCollision 15 (stepper spawnFood s) = stepper spawnFood s"
    by (rule selfCollision_still_playing)
  then show ?thesis using assms(1) by (simp add: loop_def)
qed

lemma loop_src_still_playing_state:
  assumes "isPlaying s" and "isPlaying (loop_src s)"
  shows "loop_src s = renderAndSchedule (stepper spawnFood_src s)"
proof -
  let ?t = "stepper spawnFood_src s"
  from selfCollision_src_cases[of 15 ?t] show ?thesis
  proof
    assume "selfCollision_src 15 ?t = (False, ?t)"
    then show ?thesis using assms(1) by (simp add: loop_src_def)
  next
    assume a: "fst (selfCollision_src 15 ?t) \<and>
        resetTo (width ?t) (height ?t) (snd (selfCollision_src 15 ?t))"
    then have "loop_src s = snd (selfCollision_src 15 ?t)"
      using assms(1) by (cases "selfCollision_src 15 ?t") (simp add: loop_src_def)
    then have "\<not> isPlaying (loop_src s)" using a by (simp add: resetTo_def)
    then show ?thesis using assms(2) by simp
  qed
qed

lemma loop_reset_or_playing:
  assumes "isPlaying s" and "\<not> isPlaying (loop s)"
  shows "resetTo (width s) (height s) (loop s)"
proof -
  let ?t = "stepper spawnFood s"
  from selfCollision_cases[of 15 ?t] show ?thesis
  proof
    assume "selfCollision 15 ?t = ?t"
    then have "isPlaying (loop s)"
      using assms(1) by (simp add: loop_def stepper_fields[OF spawner_spawnFood])
    then show ?thesis using assms(2) by simp
  next
    assume "resetTo (width ?t) (height ?t) (selfCollision 15 ?t)"
    then show ?thesis
      using assms(1) by (simp add: loop_def resetTo_renderAndSchedule stepper_fields[OF spawner_spawnFood])
  qed
qed

lemma loop_src_reset_or_playing:
  assumes "isPlaying s" and "\<not> isPlaying (loop_src s)"
  shows "resetTo (width s) (height s) (loop_src s)"
proof -
  let ?t = "stepper spawnFood_src s"
  from selfCollision_src_cases[of 15 ?t] show ?thesis
  proof
    assume "selfCollision_src 15 ?t = (False, ?t)"
    then have "isPlaying (loop_src s)"
      using assms(1) by (simp add: loop_src_def stepper_fields[OF spawner_spawnFood_src])
    then show ?thesis using assms(2) by simp
  next
    assume a: "fst (selfCollision_src 15 ?t) \<and>
        resetTo (width ?t) (height ?t) (snd (selfCollision_src 15 ?t))"
    then have "loop_src s = snd (selfCollision_src 15 ?t)"
      using assms(1) by (cases "selfCollision_src 15 ?t") (simp add: loop_src_def)
    then show ?thesis using a by (simp add: stepper_fields[OF spawner_spawnFood_src])
  qed
qed

lemma length_history_loop_src:
  "length (history (loop_src s)) \<le> max 80 (length (history s) + 1)"
proof (cases "isPlaying s")
  case True
  show ?thesis
  proof (cases "isPlaying (loop_src s)")
    case p: True
    have "length (history (stepper spawnFood_src s)) \<le> length (history s) + 1"
      by (simp add: length_history_stepper[OF spawner_spawnFood_src])
    then show ?thesis by (simp add: loop_src_still_playing_state[OF True p])
  next
    case False
    from loop_src_reset_or_playing[OF True False] show ?thesis by (simp add: resetTo_def)
  qed
next
  case False
  then show ?thesis by (simp add: loop_src_def)
qed

lemma length_history_frames_src:
  "length (history ((frame_src ^^ n) s)) \<le> max 80 (length (history s)) + n"
proof (induction n)
  case 0
  then show ?case by simp
next
  case (Suc n)
  let ?t = "(frame_src ^^ n) s"
  have "length (history (frame_src ?t)) \<le> max 80 (length (history ?t)) + 1"
  proof (cases "rafPending ?t")
    case True
    have "length (history (loop_src (?t\<lparr>rafPending := False\<rparr>))) \<le> max 80 (length (history ?t) + 1)"
      using length_history_loop_src[of "?t\<lparr>rafPending := False\<rparr>"] by simp
    also have "\<dots> \<le> max 80 (length (history ?t)) + 1" by simp
    finally show ?thesis using True by (simp add: frame_src_def)
  next
    case False
    then show ?thesis by (simp add: frame_src_def)
  qed
  then show ?case using Suc by simp
qed

text \<open>
  Claim C9, as amended. A playing tick without a reset never shortens the trail, in
  either version: the trail gains exactly one point when it is below the cap of the score
  before the tick, and keeps its length otherwise. Over \<open>n\<close> frames of either version it
  gains at most \<open>n\<close> points on the larger of 80 and its length, whatever is eaten: after a pickup the trail
  is below the new cap until enough ticks have passed, and from the start a length of 480
  takes at least 400 frames.
\<close>

theorem trail_grows_one_point_per_tick:
  "(isPlaying s \<and> isPlaying (loop s) \<longrightarrow>
      length (history (loop s)) =
       (if length (history s) < (20 + score s * 10) * 4 then length (history s) + 1
        else length (history s)))
   \<and> (isPlaying s \<and> isPlaying (loop_src s) \<longrightarrow>
      length (history (loop_src s)) =
       (if length (history s) < (20 + score s * 10) * 4 then length (history s) + 1
        else length (history s)))
   \<and> length (history ((frame ^^ n) s)) \<le> max 80 (length (history s)) + n
   \<and> length (history ((frame_src ^^ n) s)) \<le> max 80 (length (history s)) + n"
proof -
  have a: "length (history (loop s)) =
       (if length (history s) < (20 + score s * 10) * 4 then length (history s) + 1
        else length (history s))" if "isPlaying s" "isPlaying (loop s)"
  proof -
    have "isPlaying (selfCollision 15 (stepper spawnFood s))"
      using that by (simp add: loop_def)
    then have "selfCollision 15 (stepper spawnFood s) = stepper spawnFood s"
      by (rule selfCollision_still_playing)
    then have "history (loop s) = history (stepper spawnFood s)"
      using that(1) by (simp add: loop_def)
    then show ?thesis
      by (simp add: length_history_stepper[OF spawner_spawnFood] currentLength_eq)
  qed
  have b: "length (history (loop_src s)) =
       (if length (history s) < (20 + score s * 10) * 4 then length (history s) + 1
        else length (history s))" if "isPlaying s" "isPlaying (loop_src s)"
    using loop_src_still_playing[OF that]
    by (simp add: length_history_stepper[OF spawner_spawnFood_src] currentLength_eq)
  show ?thesis using a b length_history_frames[of n s] length_history_frames_src[of n s] by blast
qed

subsection \<open>The spawner\<close>

lemma spawnLoop_valid: "spawnLoop R w h True X Y a n = (True, X, Y, n)"
  by (subst spawnLoop.simps) simp

lemma spawnLoop_exhausted: "spawnLoop R w h v X Y 100 n = (v, X, Y, n)"
  by (subst spawnLoop.simps) simp

lemma spawnLoop_attempt:
  "a < 100 \<Longrightarrow>
   spawnLoop R w h False X Y a n =
     spawnLoop R w h (\<not> (inBoxX w (attemptX R w n 0) \<and> inBoxY h (attemptY R h n 0)))
       (attemptX R w n 0) (attemptY R h n 0) (Suc a) (Suc (Suc n))"
  by (subst spawnLoop.simps) (simp add: attemptX_def attemptY_def Let_def)

lemma attempt_shift:
  "attemptX R w (Suc (Suc n)) j = attemptX R w n (Suc j)"
  "attemptY R h (Suc (Suc n)) j = attemptY R h n (Suc j)"
  by (simp_all add: attemptX_def attemptY_def)

lemma spawnLoop_accepts:
  "a + j < 100 \<Longrightarrow>
   (\<forall>i<j. inBoxX w (attemptX R w n i) \<and> inBoxY h (attemptY R h n i)) \<Longrightarrow>
   \<not> (inBoxX w (attemptX R w n j) \<and> inBoxY h (attemptY R h n j)) \<Longrightarrow>
   spawnLoop R w h False X Y a n = (True, attemptX R w n j, attemptY R h n j, n + 2 * Suc j)"
proof (induction j arbitrary: a n X Y)
  case 0
  then have "a < 100" by simp
  from spawnLoop_attempt[OF this] "0.prems"(3) show ?case
    by (simp add: spawnLoop_valid)
next
  case (Suc j)
  have a: "a < 100" using Suc.prems(1) by simp
  have r0: "inBoxX w (attemptX R w n 0) \<and> inBoxY h (attemptY R h n 0)"
    using Suc.prems(2) by blast
  have l: "Suc a + j < 100" using Suc.prems(1) by simp
  have p: "\<forall>i<j. inBoxX w (attemptX R w (Suc (Suc n)) i) \<and> inBoxY h (attemptY R h (Suc (Suc n)) i)"
    using Suc.prems(2) by (simp add: attempt_shift)
  have q: "\<not> (inBoxX w (attemptX R w (Suc (Suc n)) j) \<and> inBoxY h (attemptY R h (Suc (Suc n)) j))"
    using Suc.prems(3) by (simp add: attempt_shift)
  from Suc.IH[OF l p q] show ?case
    unfolding spawnLoop_attempt[OF a] using r0 by (simp add: attempt_shift)
qed

lemma spawnLoop_all_rejected:
  "a + k = 100 \<Longrightarrow>
   (\<forall>i<k. inBoxX w (attemptX R w n i) \<and> inBoxY h (attemptY R h n i)) \<Longrightarrow>
   fst (spawnLoop R w h False X Y a n) = False"
proof (induction k arbitrary: a n X Y)
  case 0
  then show ?case by (simp add: spawnLoop_exhausted)
next
  case (Suc k)
  have a: "a < 100" using Suc.prems(1) by simp
  have r0: "inBoxX w (attemptX R w n 0) \<and> inBoxY h (attemptY R h n 0)"
    using Suc.prems(2) by blast
  have l: "Suc a + k = 100" using Suc.prems(1) by simp
  have p: "\<forall>i<k. inBoxX w (attemptX R w (Suc (Suc n)) i) \<and> inBoxY h (attemptY R h (Suc (Suc n)) i)"
    using Suc.prems(2) by (simp add: attempt_shift)
  from Suc.IH[OF l p] show ?case
    unfolding spawnLoop_attempt[OF a] using r0 by simp
qed

lemma spawnFood_fallback:
  "\<forall>j<100. rejected s j \<Longrightarrow> food (spawnFood s) = \<lparr>x = margin, y = margin\<rparr>"
proof -
  assume "\<forall>j<100. rejected s j"
  then have r: "\<forall>i<100. inBoxX (width s) (attemptX (mathRandom s) (width s) (draws s) i)
      \<and> inBoxY (height s) (attemptY (mathRandom s) (height s) (draws s) i)"
    unfolding rejected_def .
  have "(0::nat) + 100 = 100" by simp
  from spawnLoop_all_rejected[OF this r]
  have "fst (spawnLoop (mathRandom s) (width s) (height s) False 0 0 0 (draws s)) = False" .
  then show ?thesis
    by (cases "spawnLoop (mathRandom s) (width s) (height s) False 0 0 0 (draws s)")
      (simp add: spawnFood_def)
qed

lemma spawnFood_first_accepted:
  "j < 100 \<Longrightarrow> \<forall>i<j. rejected s i \<Longrightarrow> \<not> rejected s j \<Longrightarrow>
   food (spawnFood s) = \<lparr>x = attemptX (mathRandom s) (width s) (draws s) j,
                          y = attemptY (mathRandom s) (height s) (draws s) j\<rparr>"
proof -
  assume j: "j < 100" and r: "\<forall>i<j. rejected s i" and n: "\<not> rejected s j"
  have a: "0 + j < 100" using j by simp
  have b: "\<forall>i<j. inBoxX (width s) (attemptX (mathRandom s) (width s) (draws s) i)
      \<and> inBoxY (height s) (attemptY (mathRandom s) (height s) (draws s) i)"
    using r unfolding rejected_def .
  have c: "\<not> (inBoxX (width s) (attemptX (mathRandom s) (width s) (draws s) j)
      \<and> inBoxY (height s) (attemptY (mathRandom s) (height s) (draws s) j))"
    using n unfolding rejected_def .
  have "spawnLoop (mathRandom s) (width s) (height s) False 0 0 0 (draws s)
      = (True, attemptX (mathRandom s) (width s) (draws s) j,
         attemptY (mathRandom s) (height s) (draws s) j, draws s + 2 * Suc j)"
    by (rule spawnLoop_accepts[OF a b c])
  then show ?thesis by (simp add: spawnFood_def)
qed

lemma attempt_in_range:
  assumes "0 \<le> r" "r < 1" "40 \<le> w"
  shows "margin \<le> margin + r * (w - 2 * margin)" "margin + r * (w - 2 * margin) \<le> w - margin"
proof -
  have nn: "0 \<le> w - 2 * margin" using assms(3) by (simp add: margin_def)
  then show "margin \<le> margin + r * (w - 2 * margin)" using assms(1) by simp
  have "r * (w - 2 * margin) \<le> 1 * (w - 2 * margin)"
    using assms(2) nn by (intro mult_right_mono) simp_all
  then show "margin + r * (w - 2 * margin) \<le> w - margin" by simp
qed

text \<open>
  Claim C6, as amended. With random draws in \<open>[0, 1)\<close> and a container at least 40 wide
  and high, the food of the spawner with the forbidden zone lies in the play area
  \<open>[margin, dimension - margin]\<close> on both axes; if one of the 100 attempts falls outside
  the zone the food is outside the zone; if all 100 fall inside, the food is the corner
  \<open>(margin, margin)\<close>; and for a width of at least 380 or a height of at least 290 the
  food is outside the zone in every case. The spawner of
  \<^verbatim>\<open>src/components/SnakeGame.tsx\<close> only keeps the food in the play area.
\<close>

theorem food_in_play_area_and_outside_zone:
  assumes "\<forall>m. 0 \<le> mathRandom s m \<and> mathRandom s m < 1"
    and "40 \<le> width s" and "40 \<le> height s"
  shows "margin \<le> x (food (spawnFood s)) \<and> x (food (spawnFood s)) \<le> width s - margin
     \<and> margin \<le> y (food (spawnFood s)) \<and> y (food (spawnFood s)) \<le> height s - margin
     \<and> ((\<exists>j<100. \<not> rejected s j) \<longrightarrow> \<not> inForbiddenZone s (food (spawnFood s)))
     \<and> ((\<forall>j<100. rejected s j) \<longrightarrow> food (spawnFood s) = \<lparr>x = margin, y = margin\<rparr>)
     \<and> (380 \<le> width s \<or> 290 \<le> height s \<longrightarrow> \<not> inForbiddenZone s (food (spawnFood s)))
     \<and> margin \<le> x (food (spawnFood_src s)) \<and> x (food (spawnFood_src s)) \<le> width s - margin
     \<and> margin \<le> y (food (spawnFood_src s)) \<and> y (food (spawnFood_src s)) \<le> height s - margin"
proof -
  have R: "\<And>m. 0 \<le> mathRandom s m" "\<And>m. mathRandom s m < 1" using assms(1) by blast+
  have sx: "x (food (spawnFood_src s)) = margin + mathRandom s (draws s) * (width s - 2 * margin)"
    and sy: "y (food (spawnFood_src s)) = margin + mathRandom s (Suc (draws s)) * (height s - 2 * margin)"
    by (simp_all add: spawnFood_src_def)
  have src: "margin \<le> x (food (spawnFood_src s)) \<and> x (food (spawnFood_src s)) \<le> width s - margin
     \<and> margin \<le> y (food (spawnFood_src s)) \<and> y (food (spawnFood_src s)) \<le> height s - margin"
    using attempt_in_range[OF R(1)[of "draws s"] R(2)[of "draws s"] assms(2)]
      attempt_in_range[OF R(1)[of "Suc (draws s)"] R(2)[of "Suc (draws s)"] assms(3)]
    unfolding sx sy by blast
  show ?thesis
  proof (cases "\<exists>j<100. \<not> rejected s j")
    case True
    define j where "j = (LEAST j. j < 100 \<and> \<not> rejected s j)"
    have ex: "\<exists>j. j < 100 \<and> \<not> rejected s j" using True by blast
    have "j < 100 \<and> \<not> rejected s j" unfolding j_def by (rule LeastI_ex[OF ex])
    then have j: "j < 100" "\<not> rejected s j" by simp_all
    have "rejected s i" if "i < j" for i
    proof (rule ccontr)
      assume "\<not> rejected s i"
      then have "i < 100 \<and> \<not> rejected s i" using that j(1) by simp
      then have "j \<le> i" unfolding j_def
        by (rule Least_le[of "\<lambda>j. j < 100 \<and> \<not> rejected s j" i])
      then show False using that by simp
    qed
    then have f: "food (spawnFood s) = \<lparr>x = attemptX (mathRandom s) (width s) (draws s) j,
                          y = attemptY (mathRandom s) (height s) (draws s) j\<rparr>"
      using spawnFood_first_accepted[OF j(1) _ j(2)] by blast
    have z: "\<not> inForbiddenZone s (food (spawnFood s))"
      using j(2) by (simp add: f inForbiddenZone_def rejected_def)
    have fx: "x (food (spawnFood s)) = margin + mathRandom s (draws s + 2 * j) * (width s - 2 * margin)"
      and fy: "y (food (spawnFood s)) = margin + mathRandom s (Suc (draws s + 2 * j)) * (height s - 2 * margin)"
      by (simp_all add: f attemptX_def attemptY_def)
    have "margin \<le> x (food (spawnFood s)) \<and> x (food (spawnFood s)) \<le> width s - margin
     \<and> margin \<le> y (food (spawnFood s)) \<and> y (food (spawnFood s)) \<le> height s - margin"
      using attempt_in_range[OF R(1)[of "draws s + 2 * j"] R(2)[of "draws s + 2 * j"] assms(2)]
        attempt_in_range[OF R(1)[of "Suc (draws s + 2 * j)"] R(2)[of "Suc (draws s + 2 * j)"] assms(3)]
      unfolding fx fy by blast
    then show ?thesis using z True src by blast
  next
    case False
    then have all: "\<forall>j<100. rejected s j" by blast
    have f: "food (spawnFood s) = \<lparr>x = margin, y = margin\<rparr>" by (rule spawnFood_fallback[OF all])
    have "margin \<le> x (food (spawnFood s)) \<and> x (food (spawnFood s)) \<le> width s - margin
     \<and> margin \<le> y (food (spawnFood s)) \<and> y (food (spawnFood s)) \<le> height s - margin"
      using assms(2,3) by (simp add: f margin_def)
    moreover have "380 \<le> width s \<or> 290 \<le> height s \<longrightarrow> \<not> inForbiddenZone s (food (spawnFood s))"
      by (auto simp add: f inForbiddenZone_def inBoxX_def inBoxY_def margin_def forbiddenW_def forbiddenH_def)
    ultimately show ?thesis using False f src by blast
  qed
qed

lemma exampleSmall_rejected: "rejected exampleSmall j"
  by (simp add: rejected_def exampleSmall_def initialRefs_def attemptX_def attemptY_def
      inBoxX_def inBoxY_def margin_def forbiddenW_def forbiddenH_def)

text \<open>
  Claim C6 as stated fails in two ways: in a container of 300 by 200 every attempt is
  rejected and the fallback corner itself lies inside the forbidden zone; and the spawner
  of \<^verbatim>\<open>src/components/SnakeGame.tsx\<close> has no forbidden zone, so in a container of 800 by
  600 a draw of one half puts the food in the very centre.
\<close>

theorem food_inside_zone_examples:
  "food (spawnFood exampleSmall) = \<lparr>x = 20, y = 20\<rparr>
   \<and> inBoxX (width exampleSmall) 20 \<and> inBoxY (height exampleSmall) 20
   \<and> inForbiddenZone exampleSmall (food (spawnFood exampleSmall))
   \<and> food (spawnFood_src exampleCentre) = \<lparr>x = 400, y = 300\<rparr>
   \<and> inForbiddenZone exampleCentre (food (spawnFood_src exampleCentre))"
proof -
  have "\<forall>j<100. rejected exampleSmall j" using exampleSmall_rejected by blast
  from spawnFood_fallback[OF this]
  have a: "food (spawnFood exampleSmall) = \<lparr>x = 20, y = 20\<rparr>" by (simp add: margin_def)
  have b: "inBoxX (width exampleSmall) 20 \<and> inBoxY (height exampleSmall) 20"
    by (simp add: exampleSmall_def initialRefs_def inBoxX_def inBoxY_def forbiddenW_def forbiddenH_def)
  have c: "food (spawnFood_src exampleCentre) = \<lparr>x = 400, y = 300\<rparr>"
    by (simp add: spawnFood_src_def exampleCentre_def initialRefs_def margin_def)
  have d: "inForbiddenZone exampleCentre \<lparr>x = 400, y = 300\<rparr>"
    by (simp add: inForbiddenZone_def exampleCentre_def initialRefs_def inBoxX_def inBoxY_def
        forbiddenW_def forbiddenH_def)
  show ?thesis using a b c d by (simp add: inForbiddenZone_def)
qed

subsection \<open>Evaluating the examples\<close>

lemma sqrt_less_numeral:
  "sqrt a < 5 \<longleftrightarrow> a < 25" "sqrt a < 15 \<longleftrightarrow> a < 225" "sqrt a < 50 \<longleftrightarrow> a < 2500"
  "50 < sqrt a \<longleftrightarrow> 2500 < a"
proof -
  have a: "sqrt 25 = 5" "sqrt 225 = 15" "sqrt 2500 = 50"
    by (rule real_sqrt_unique; simp)+
  show "sqrt a < 5 \<longleftrightarrow> a < 25" using real_sqrt_less_iff[of a 25] by (simp only: a)
  show "sqrt a < 15 \<longleftrightarrow> a < 225" using real_sqrt_less_iff[of a 225] by (simp only: a)
  show "sqrt a < 50 \<longleftrightarrow> a < 2500" using real_sqrt_less_iff[of a 2500] by (simp only: a)
  show "50 < sqrt a \<longleftrightarrow> 2500 < a" using real_sqrt_less_iff[of 2500 a] by (simp only: a)
qed

lemma normDiff_at_target: "targetAngle s = angle s \<Longrightarrow> normDiff s = 0"
  by (simp add: normDiff_def normUp_id normDown_id)

text \<open>A tick of a snake that heads left, with its heading at the target.\<close>

lemma stepper_heading_left:
  assumes "spawner sp" and "angle s = pi" and "targetAngle s = pi"
  shows "pos (stepper sp s) =
       \<lparr>x = wrapHigh (width s) (wrapLow (width s) (x (pos s) - 2.5)),
        y = wrapHigh (height s) (wrapLow (height s) (y (pos s)))\<rparr>"
    and "history (stepper sp s) =
       (if length (history s) < currentLength s then pos (stepper sp s) # history s
        else butlast (pos (stepper sp s) # history s))"
proof -
  have a: "angle (updateDirection s) = pi"
    using assms(2,3) by (simp add: updateDirection_def normDiff_at_target)
  have m: "pos (moveHead (updateDirection s)) = \<lparr>x = x (pos s) - 2.5, y = y (pos s)\<rparr>"
    by (simp add: moveHead_def a SPEED_def)
  show p: "pos (stepper sp s) =
       \<lparr>x = wrapHigh (width s) (wrapLow (width s) (x (pos s) - 2.5)),
        y = wrapHigh (height s) (wrapLow (height s) (y (pos s)))\<rparr>"
    by (simp add: stepper_fields[OF assms(1)] wraparound_def m)
  show "history (stepper sp s) =
       (if length (history s) < currentLength s then pos (stepper sp s) # history s
        else butlast (pos (stepper sp s) # history s))"
    unfolding p[symmetric]
    by (simp add: stepper_fields[OF assms(1)] updateTail_def Let_def currentLength_eq
        del: butlast.simps)
qed

lemma mount_fields:
  assumes "\<not> isPlaying s"
  shows "pos (mount cw ch s) = \<lparr>x = (if cw > 0 then cw - 50 else 300), y = (if ch > 0 then ch - 30 else 500)\<rparr>"
  "angle (mount cw ch s) = pi" "targetAngle (mount cw ch s) = pi"
  "history (mount cw ch s) = initialTail (pos (mount cw ch s))"
  "score (mount cw ch s) = 0" "\<not> isPlaying (mount cw ch s)"
  "width (mount cw ch s) = cw" "height (mount cw ch s) = ch" "rafPending (mount cw ch s)"
  "mathRandom (mount cw ch s) = mathRandom s"
  using assms
  by (simp_all add: mount_def loop_def initGame_fields[OF spawner_spawnFood] handleResize_def
      startX_def startY_def)

lemma exampleRefs_idle: "\<not> isPlaying exampleRefs"
  by (simp add: exampleRefs_def initialRefs_def)

lemma nth_initialTail: "i < 80 \<Longrightarrow> initialTail p ! i = \<lparr>x = x p + real i * 2.5, y = y p\<rparr>"
  by (simp add: initialTail_def TAIL_LENGTH_def SEGMENT_SPACING_def SPEED_def)

lemma exampleNarrow_fields:
  "pos exampleNarrow = \<lparr>x = 0, y = 570\<rparr>" "angle exampleNarrow = pi" "targetAngle exampleNarrow = pi"
  "history exampleNarrow = initialTail \<lparr>x = 0, y = 570\<rparr>" "score exampleNarrow = 0"
  "isPlaying exampleNarrow" "width exampleNarrow = 36" "height exampleNarrow = 600"
  by (simp_all add: exampleNarrow_def startGame_def handleResize_def mount_fields[OF exampleRefs_idle])

lemma exampleNarrow_step:
  "pos (stepper spawnFood exampleNarrow) = \<lparr>x = 36, y = 570\<rparr>"
  "history (stepper spawnFood exampleNarrow) = butlast (\<lparr>x = 36, y = 570\<rparr> # initialTail \<lparr>x = 0, y = 570\<rparr>)"
  by (simp_all add: stepper_heading_left[OF spawner_spawnFood] exampleNarrow_fields
      wrapLow_def wrapHigh_def currentLength_eq del: butlast.simps)

lemma exampleNarrow_crash:
  "15 + SEGMENT_SPACING * 0 < length (history (stepper spawnFood exampleNarrow))"
  "crash (stepper spawnFood exampleNarrow) (15 + SEGMENT_SPACING * 0)"
  by (simp_all add: exampleNarrow_step crash_def distHead_def segJump_def nth_butlast
      nth_initialTail sqrt_less_numeral del: butlast.simps)

subsection \<open>The first tick of the example\<close>

lemma spawnFood_example:
  assumes "width t = 800" "height t = 600" "mathRandom t = (\<lambda>n. 97 / 100)"
  shows "food (spawnFood t) = \<lparr>x = 757.2, y = 563.2\<rparr>"
proof -
  have n: "\<not> rejected t 0"
    by (simp add: rejected_def assms attemptX_def inBoxX_def margin_def forbiddenW_def)
  have "food (spawnFood t) = \<lparr>x = attemptX (mathRandom t) (width t) (draws t) 0,
                          y = attemptY (mathRandom t) (height t) (draws t) 0\<rparr>"
    by (rule spawnFood_first_accepted[OF _ _ n]) simp_all
  then show ?thesis by (simp add: assms attemptX_def attemptY_def margin_def)
qed

lemma exampleIdle_food: "food exampleIdle = \<lparr>x = 757.2, y = 563.2\<rparr>"
proof -
  let ?s = "handleResize 800 600 exampleRefs"
  let ?t = "?s\<lparr>pos := \<lparr>x = startX ?s, y = startY ?s\<rparr>, headPos := \<lparr>x = startX ?s, y = startY ?s\<rparr>,
      angle := pi, targetAngle := pi, history := initialTail \<lparr>x = startX ?s, y = startY ?s\<rparr>, score := 0\<rparr>"
  have "food (spawnFood ?t) = \<lparr>x = 757.2, y = 563.2\<rparr>"
    by (rule spawnFood_example) (simp_all add: handleResize_def exampleRefs_def initialRefs_def)
  then show ?thesis
    by (simp add: exampleIdle_def mount_def loop_def initGame_def Let_def exampleRefs_idle
        handleResize_def)
qed

lemma atStart_examplePlaying: "atStart examplePlaying" "atStart (examplePlaying\<lparr>rafPending := False\<rparr>)"
  by (simp_all add: atStart_def examplePlaying_def startGame_def exampleIdle_fields exampleIdle_food)

lemma atStart_stepper:
  assumes "atStart s"
  shows "pos (stepper spawnFood s) = \<lparr>x = 747.5, y = 570\<rparr>"
    and "history (stepper spawnFood s) = butlast (\<lparr>x = 747.5, y = 570\<rparr> # initialTail \<lparr>x = 750, y = 570\<rparr>)"
    and "score (stepper spawnFood s) = 1"
    and "isPlaying (stepper spawnFood s)"
proof -
  have f: "angle s = pi" "targetAngle s = pi" "pos s = \<lparr>x = 750, y = 570\<rparr>"
    "history s = initialTail \<lparr>x = 750, y = 570\<rparr>" "score s = 0" "width s = 800" "height s = 600"
    "food s = \<lparr>x = 757.2, y = 563.2\<rparr>" "isPlaying s"
    using assms by (simp_all add: atStart_def)
  show p: "pos (stepper spawnFood s) = \<lparr>x = 747.5, y = 570\<rparr>"
    by (simp add: stepper_heading_left[OF spawner_spawnFood f(1,2)] f wrapLow_def wrapHigh_def)
  show "history (stepper spawnFood s) = butlast (\<lparr>x = 747.5, y = 570\<rparr> # initialTail \<lparr>x = 750, y = 570\<rparr>)"
    by (simp add: stepper_heading_left(2)[OF spawner_spawnFood f(1,2)] p f currentLength_eq
        del: butlast.simps)
  have "pos (wraparound (moveHead (updateDirection s))) = \<lparr>x = 747.5, y = 570\<rparr>"
    using p by (simp add: stepper_fields[OF spawner_spawnFood])
  then have "foodDist (wraparound (moveHead (updateDirection s))) < 15"
    by (simp add: foodDist_def f sqrt_less_numeral)
  then show "score (stepper spawnFood s) = 1"
    by (simp add: stepper_def foodCollision_def f)
  show "isPlaying (stepper spawnFood s)" by (simp add: stepper_fields[OF spawner_spawnFood] f)
qed

lemma atStart_no_crash:
  assumes "atStart s" and "15 \<le> j" and "j < length (history (stepper spawnFood s))"
  shows "\<not> crash (stepper spawnFood s) j"
proof -
  have "length (history (stepper spawnFood s)) = 80"
    by (simp add: atStart_stepper[OF assms(1)] del: butlast.simps)
  then have j: "j < 80" "0 < j" "j - 1 < 80" using assms(2,3) by simp_all
  have "history (stepper spawnFood s) ! j = initialTail \<lparr>x = 750, y = 570\<rparr> ! (j - 1)"
    using j by (simp add: atStart_stepper[OF assms(1)] nth_butlast nth_Cons' del: butlast.simps)
  also have "\<dots> = \<lparr>x = 750 + real (j - 1) * 2.5, y = 570\<rparr>"
    using j by (simp add: nth_initialTail)
  also have "\<dots> = \<lparr>x = 747.5 + real j * 2.5, y = 570\<rparr>"
  proof -
    have "real (j - 1) = real j - 1" using j by (simp add: of_nat_diff)
    then show ?thesis by (simp add: field_simps)
  qed
  finally have h: "history (stepper spawnFood s) ! j = \<lparr>x = 747.5 + real j * 2.5, y = 570\<rparr>" .
  have "distHead (stepper spawnFood s) j = real j * 2.5"
    by (simp add: distHead_def h atStart_stepper(1)[OF assms(1)])
  moreover have "15 \<le> real j" using assms(2) by simp
  ultimately have "\<not> distHead (stepper spawnFood s) j < 5" by simp
  then show ?thesis by (simp add: crash_def)
qed

lemma atStart_loop:
  assumes "atStart s"
  shows "isPlaying (loop s)" "score (loop s) = 1" "length (history (loop s)) = 80"
proof -
  have "selfCollision 15 (stepper spawnFood s) = stepper spawnFood s"
    by (rule selfCollision_no_crash) (rule atStart_no_crash[OF assms])
  moreover have "isPlaying s" using assms by (simp add: atStart_def)
  ultimately have l: "loop s = renderAndSchedule (stepper spawnFood s)" by (simp add: loop_def)
  show "isPlaying (loop s)" "score (loop s) = 1" "length (history (loop s)) = 80"
    by (simp_all add: l atStart_stepper[OF assms] del: butlast.simps)
qed

lemma exampleFirstTick_loop: "exampleFirstTick = loop (examplePlaying\<lparr>rafPending := False\<rparr>)"
  by (simp add: exampleFirstTick_def frame_def examplePlaying_def startGame_def exampleIdle_fields)

lemma reachable_examplePlaying: "reachable examplePlaying"
  unfolding examplePlaying_def exampleIdle_def exampleRefs_def
  by (intro reachable.intros)

text \<open>
  Claim C9 as stated fails right after a pickup: started from the mounted state with the
  food within reach, the first tick eats, the cap becomes 120, and the trail still has
  80 points, with no reset anywhere.
\<close>

theorem trail_below_cap_after_pickup:
  "reachable exampleFirstTick \<and> isPlaying exampleFirstTick \<and> score exampleFirstTick = 1
   \<and> length (history exampleFirstTick) = 80
   \<and> (TAIL_LENGTH + score exampleFirstTick * GROWTH_PER_FOOD) * SEGMENT_SPACING = 120
   \<and> length (history exampleFirstTick)
       < (TAIL_LENGTH + score exampleFirstTick * GROWTH_PER_FOOD) * SEGMENT_SPACING"
proof -
  have "reachable exampleFirstTick"
    unfolding exampleFirstTick_def by (rule r_frame[OF reachable_examplePlaying])
  then show ?thesis
    using atStart_loop[OF atStart_examplePlaying(2)]
    by (simp add: exampleFirstTick_loop TAIL_LENGTH_def GROWTH_PER_FOOD_def SEGMENT_SPACING_def)
qed

theorem trail_grows_one_point_per_tick_witness:
  "isPlaying examplePlaying \<and> isPlaying (loop examplePlaying)
   \<and> length (history examplePlaying) = 80 \<and> score examplePlaying = 0
   \<and> length (history (loop examplePlaying)) = 80
   \<and> length (history ((frame ^^ 399) examplePlaying)) < 480"
  using trail_grows_one_point_per_tick[of examplePlaying 399] atStart_loop[OF atStart_examplePlaying(1)]
    atStart_examplePlaying(1)
  by (simp add: atStart_def)

theorem trail_never_exceeds_cap_witness:
  "reachable exampleFirstTick \<and> score exampleFirstTick = 1
   \<and> length (history exampleFirstTick) = 80
   \<and> length (history exampleFirstTick) \<le> (20 + score exampleFirstTick * 10) * 4
   \<and> history (updateTail exampleFirstTick) = pos exampleFirstTick # history exampleFirstTick"
proof -
  have r: "reachable exampleFirstTick"
    unfolding exampleFirstTick_def by (rule r_frame[OF reachable_examplePlaying])
  show ?thesis
    using trail_never_exceeds_cap[of exampleFirstTick] r atStart_loop[OF atStart_examplePlaying(2)]
    by (simp add: exampleFirstTick_loop)
qed

subsection \<open>Crashes, jumps and edges\<close>

lemma loop_crash_resets:
  assumes "isPlaying s"
    and "15 + SEGMENT_SPACING * k < length (history (stepper spawnFood s))"
    and "crash (stepper spawnFood s) (15 + SEGMENT_SPACING * k)"
  shows "resetTo (width s) (height s) (loop s)"
proof -
  have "resetTo (width (stepper spawnFood s)) (height (stepper spawnFood s))
          (selfCollision 15 (stepper spawnFood s))"
    by (rule selfCollision_crash_resets[OF assms(2,3)])
  then show ?thesis
    using assms(1) by (simp add: loop_def resetTo_renderAndSchedule stepper_fields[OF spawner_spawnFood])
qed

lemma narrowStart_crash:
  assumes "spawner sp" and "narrowStart x0 w s" and "x0 < 2.5" and "0 \<le> w"
    and "\<bar>w - (x0 + 35)\<bar> < 5"
  shows "15 + SEGMENT_SPACING * 0 < length (history (stepper sp s))"
    and "crash (stepper sp s) (15 + SEGMENT_SPACING * 0)"
proof -
  have f: "angle s = pi" "targetAngle s = pi" "pos s = \<lparr>x = x0, y = 570\<rparr>"
    "history s = initialTail \<lparr>x = x0, y = 570\<rparr>" "score s = 0" "width s = w" "height s = 600"
    using assms(2) by (simp_all add: narrowStart_def)
  have p: "pos (stepper sp s) = \<lparr>x = w, y = 570\<rparr>"
    using assms(3,4)
    by (simp add: stepper_heading_left[OF assms(1) f(1,2)] f wrapLow_def wrapHigh_def)
  have h: "history (stepper sp s) = butlast (\<lparr>x = w, y = 570\<rparr> # initialTail \<lparr>x = x0, y = 570\<rparr>)"
    by (simp add: stepper_heading_left(2)[OF assms(1) f(1,2)] p f currentLength_eq
        del: butlast.simps)
  show "15 + SEGMENT_SPACING * 0 < length (history (stepper sp s))"
    by (simp add: h del: butlast.simps)
  from assms(5) show "crash (stepper sp s) (15 + SEGMENT_SPACING * 0)"
    by (simp add: h p crash_def distHead_def segJump_def nth_butlast nth_initialTail
        sqrt_less_numeral del: butlast.simps)
qed

lemma narrowStart_exampleNarrow: "narrowStart 0 36 exampleNarrow"
  by (simp add: narrowStart_def exampleNarrow_fields)

lemma narrowStart_exampleCollapsed: "narrowStart (- 35) 0 exampleCollapsed"
  by (simp add: narrowStart_def exampleCollapsed_def startGame_def handleResize_def
      mount_fields[OF exampleRefs_idle])

lemma mount_src_fields:
  assumes "\<not> isPlaying s"
  shows "pos (mount_src cw ch s) = \<lparr>x = (if cw > 0 then cw - 50 else 300), y = (if ch > 0 then ch - 30 else 500)\<rparr>"
  "angle (mount_src cw ch s) = pi" "targetAngle (mount_src cw ch s) = pi"
  "history (mount_src cw ch s) = initialTail (pos (mount_src cw ch s))"
  "score (mount_src cw ch s) = 0" "\<not> isPlaying (mount_src cw ch s)"
  "width (mount_src cw ch s) = cw" "height (mount_src cw ch s) = ch" "rafPending (mount_src cw ch s)"
  using assms
  by (simp_all add: mount_src_def loop_src_def initGame_fields[OF spawner_spawnFood_src]
      handleResize_def startX_def startY_def)

lemma narrowStart_exampleNarrow_src:
  "narrowStart 0 36 exampleNarrow_src" "narrowStart 0 36 (exampleNarrow_src\<lparr>rafPending := False\<rparr>)"
  "rafPending exampleNarrow_src"
  by (simp_all add: narrowStart_def exampleNarrow_src_def startGame_def handleResize_def
      mount_src_fields[OF exampleRefs_idle])

theorem collision_resets_game_witness:
  "isPlaying exampleNarrow \<and> width exampleNarrow = 36 \<and> height exampleNarrow = 600
   \<and> 15 + SEGMENT_SPACING * 0 < length (history (stepper spawnFood exampleNarrow))
   \<and> crash (stepper spawnFood exampleNarrow) (15 + SEGMENT_SPACING * 0)
   \<and> pos (loop exampleNarrow) = \<lparr>x = - 14, y = 570\<rparr>
   \<and> angle (loop exampleNarrow) = pi \<and> targetAngle (loop exampleNarrow) = pi
   \<and> score (loop exampleNarrow) = 0 \<and> \<not> isPlaying (loop exampleNarrow)"
  using collision_resets_game[of exampleNarrow 0]
    narrowStart_crash[OF spawner_spawnFood narrowStart_exampleNarrow]
  by (simp add: exampleNarrow_fields)

text \<open>
  Claim C4 as stated fails for a container of width 0: after a crash the head is put at
  abscissa 300, not at \<open>width - 50\<close>.
\<close>

theorem reset_corner_without_width:
  "reachable exampleCollapsed \<and> isPlaying exampleCollapsed \<and> width exampleCollapsed = 0
   \<and> 15 < length (history (stepper spawnFood exampleCollapsed))
   \<and> crash (stepper spawnFood exampleCollapsed) 15
   \<and> \<not> isPlaying (loop exampleCollapsed)
   \<and> width (loop exampleCollapsed) = 0
   \<and> pos (loop exampleCollapsed) = \<lparr>x = 300, y = 570\<rparr>
   \<and> x (pos (loop exampleCollapsed)) \<noteq> width (loop exampleCollapsed) - 50"
proof -
  have r: "reachable exampleCollapsed"
    unfolding exampleCollapsed_def exampleRefs_def by (intro reachable.intros)
  have n: "isPlaying exampleCollapsed" "width exampleCollapsed = 0" "height exampleCollapsed = 600"
    using narrowStart_exampleCollapsed by (simp_all add: narrowStart_def)
  have c: "15 + SEGMENT_SPACING * 0 < length (history (stepper spawnFood exampleCollapsed))"
    "crash (stepper spawnFood exampleCollapsed) (15 + SEGMENT_SPACING * 0)"
    by (rule narrowStart_crash[OF spawner_spawnFood narrowStart_exampleCollapsed]; simp)+
  have "resetTo 0 600 (loop exampleCollapsed)"
    using loop_crash_resets[OF n(1) c] by (simp add: n)
  then show ?thesis using r n c by (simp add: resetTo_def startCorner_def)
qed

text \<open>
  Claim C8 on \<^verbatim>\<open>src/components/SnakeGame.tsx\<close>: a container 50 wide is mounted, resized
  to 36 and the game started; the first frame wraps the head onto the initial tail, the
  reset returns from the callback, no frame is requested, and the loop never runs again.
  The version with the forbidden zone requests the next frame in the same situation.
\<close>

theorem frame_loop_stops_after_crash:
  "rafPending exampleNarrow_src \<and> isPlaying exampleNarrow_src
   \<and> 15 < length (history (stepper spawnFood_src exampleNarrow_src))
   \<and> crash (stepper spawnFood_src exampleNarrow_src) 15
   \<and> \<not> rafPending (frame_src exampleNarrow_src)
   \<and> \<not> isPlaying (frame_src exampleNarrow_src)
   \<and> frame_src (frame_src exampleNarrow_src) = frame_src exampleNarrow_src
   \<and> rafPending (frame exampleNarrow)"
proof -
  let ?s = "exampleNarrow_src\<lparr>rafPending := False\<rparr>"
  have p: "isPlaying ?s" "isPlaying exampleNarrow_src"
    using narrowStart_exampleNarrow_src by (simp_all add: narrowStart_def)
  have c: "15 + SEGMENT_SPACING * 0 < length (history (stepper spawnFood_src ?s))"
    "crash (stepper spawnFood_src ?s) (15 + SEGMENT_SPACING * 0)"
    by (rule narrowStart_crash[OF spawner_spawnFood_src narrowStart_exampleNarrow_src(2)]; simp)+
  have c': "15 + SEGMENT_SPACING * 0 < length (history (stepper spawnFood_src exampleNarrow_src))"
    "crash (stepper spawnFood_src exampleNarrow_src) (15 + SEGMENT_SPACING * 0)"
    by (rule narrowStart_crash[OF spawner_spawnFood_src narrowStart_exampleNarrow_src(1)]; simp)+
  have f: "frame_src exampleNarrow_src = loop_src ?s"
    by (simp add: frame_src_def narrowStart_exampleNarrow_src(3))
  have a: "\<not> rafPending (loop_src ?s)"
    using loop_src_crash_stops(1)[OF p(1) c] by simp
  have b: "\<not> isPlaying (loop_src ?s)"
    using loop_src_crash_stops(2)[OF p(1) c] by (simp add: resetTo_def)
  have d: "frame_src (loop_src ?s) = loop_src ?s" using a by (simp add: frame_src_def)
  show ?thesis
    using a b c' d p(2) narrowStart_exampleNarrow_src(3) frame_keeps_pending[of exampleNarrow]
    by (simp add: f exampleNarrow_def startGame_def handleResize_def mount_fields[OF exampleRefs_idle])
qed

lemma exampleWrapped_nth:
  "length (history exampleWrapped) = 80"
  "history exampleWrapped ! 15 = \<lparr>x = 800, y = 300\<rparr>"
  "history exampleWrapped ! 14 = \<lparr>x = 0, y = 300\<rparr>"
  "pos exampleWrapped = \<lparr>x = 799, y = 300\<rparr>"
  by (simp_all add: exampleWrapped_def)

theorem wrap_jump_is_no_collision_witness:
  "15 < length (history exampleWrapped) \<and> 50 < segJump exampleWrapped 15
   \<and> distHead exampleWrapped 15 < 5 \<and> \<not> crash exampleWrapped 15
   \<and> selfCollision 15 exampleWrapped = selfCollision (15 + SEGMENT_SPACING) exampleWrapped"
  using wrap_jump_is_no_collision[of 15 exampleWrapped]
  by (simp add: exampleWrapped_nth segJump_def distHead_def sqrt_less_numeral)

lemma examplePlaying_fields:
  "width examplePlaying = 800" "height examplePlaying = 600" "angle examplePlaying = pi"
  "targetAngle examplePlaying = pi" "pos examplePlaying = \<lparr>x = 750, y = 570\<rparr>"
  "mathRandom examplePlaying = (\<lambda>n. 97 / 100)" "score examplePlaying = 0"
  "food examplePlaying = \<lparr>x = 757.2, y = 563.2\<rparr>"
  using atStart_examplePlaying(1) by (simp_all add: atStart_def)

theorem food_in_play_area_and_outside_zone_witness:
  "(\<forall>m. 0 \<le> mathRandom examplePlaying m \<and> mathRandom examplePlaying m < 1)
   \<and> 40 \<le> width examplePlaying \<and> 40 \<le> height examplePlaying
   \<and> food (spawnFood examplePlaying) = \<lparr>x = 757.2, y = 563.2\<rparr>
   \<and> \<not> inForbiddenZone examplePlaying (food (spawnFood examplePlaying))
   \<and> margin \<le> 757.2 \<and> 757.2 \<le> width examplePlaying - margin"
proof -
  have h: "\<forall>m. 0 \<le> mathRandom examplePlaying m \<and> mathRandom examplePlaying m < 1"
    "40 \<le> width examplePlaying" "40 \<le> height examplePlaying"
    by (simp_all add: examplePlaying_fields)
  have f: "food (spawnFood examplePlaying) = \<lparr>x = 757.2, y = 563.2\<rparr>"
    by (rule spawnFood_example) (simp_all add: examplePlaying_fields)
  show ?thesis
    using food_in_play_area_and_outside_zone[OF h] h
    by (simp add: f examplePlaying_fields)
qed

subsection \<open>Whole ticks\<close>

lemma no_crash_far:
  assumes "5 \<le> \<bar>x (pos s) - x (history s ! j)\<bar> \<or> 5 \<le> \<bar>y (pos s) - y (history s ! j)\<bar>"
  shows "\<not> crash s j"
proof -
  let ?dx = "x (pos s) - x (history s ! j)" and ?dy = "y (pos s) - y (history s ! j)"
  have "25 \<le> ?dx\<^sup>2 + ?dy\<^sup>2"
  proof -
    from assms have "\<bar>5::real\<bar> \<le> \<bar>?dx\<bar> \<or> \<bar>5::real\<bar> \<le> \<bar>?dy\<bar>" by simp
    then have "(5::real)\<^sup>2 \<le> ?dx\<^sup>2 \<or> (5::real)\<^sup>2 \<le> ?dy\<^sup>2"
      unfolding abs_le_square_iff .
    then have d: "25 \<le> ?dx\<^sup>2 \<or> 25 \<le> ?dy\<^sup>2" by simp
    have sq: "0 \<le> ?dx\<^sup>2" "0 \<le> ?dy\<^sup>2" by simp_all
    from d show ?thesis
    proof
      assume "25 \<le> ?dx\<^sup>2"
      then show ?thesis using sq(2) by linarith
    next
      assume "25 \<le> ?dy\<^sup>2"
      then show ?thesis using sq(1) by linarith
    qed
  qed
  then have "\<not> distHead s j < 5"
    by (simp add: distHead_def Let_def sqrt_less_numeral)
  then show ?thesis by (simp add: crash_def)
qed

text \<open>A tick from the start line of the 800 by 600 example, whatever the heading is.\<close>

lemma start_line_stepper:
  assumes "spawner sp" and "pos s = \<lparr>x = 750, y = 570\<rparr>"
    and "history s = initialTail \<lparr>x = 750, y = 570\<rparr>" and "score s = 0"
    and "width s = 800" and "height s = 600"
  shows "pos (stepper sp s) = \<lparr>x = 750 + cos (angle (updateDirection s)) * 2.5,
                               y = 570 + sin (angle (updateDirection s)) * 2.5\<rparr>"
    and "history (stepper sp s) = butlast (pos (stepper sp s) # initialTail \<lparr>x = 750, y = 570\<rparr>)"
proof -
  let ?a = "angle (updateDirection s)"
  have c: "- 1 \<le> cos ?a" "cos ?a \<le> 1" "- 1 \<le> sin ?a" "sin ?a \<le> 1" by simp_all
  have m: "pos (moveHead (updateDirection s)) = \<lparr>x = 750 + cos ?a * 2.5, y = 570 + sin ?a * 2.5\<rparr>"
    by (simp add: moveHead_def assms SPEED_def)
  have w: "wrapHigh b (wrapLow b v) = v" if "0 \<le> v" "v \<le> b" for b v :: real
    using that by (simp add: wrapLow_def wrapHigh_def)
  have wx: "wrapHigh 800 (wrapLow 800 (750 + cos ?a * 2.5)) = 750 + cos ?a * 2.5"
    by (rule w) (use c(1,2) in linarith)+
  have wy: "wrapHigh 600 (wrapLow 600 (570 + sin ?a * 2.5)) = 570 + sin ?a * 2.5"
    by (rule w) (use c(3,4) in linarith)+
  have "pos (wraparound (moveHead (updateDirection s))) =
      \<lparr>x = wrapHigh 800 (wrapLow 800 (750 + cos ?a * 2.5)),
       y = wrapHigh 600 (wrapLow 600 (570 + sin ?a * 2.5))\<rparr>"
    by (simp add: wraparound_def m assms)
  then have pw: "pos (wraparound (moveHead (updateDirection s))) =
      \<lparr>x = 750 + cos ?a * 2.5, y = 570 + sin ?a * 2.5\<rparr>"
    by (simp only: wx wy)
  show p: "pos (stepper sp s) = \<lparr>x = 750 + cos ?a * 2.5, y = 570 + sin ?a * 2.5\<rparr>"
    using pw by (simp only: stepper_fields(1)[OF assms(1)])
  have "pos (wraparound (moveHead (updateDirection s))) = pos (stepper sp s)"
    by (simp add: stepper_fields[OF assms(1)])
  then show "history (stepper sp s) = butlast (pos (stepper sp s) # initialTail \<lparr>x = 750, y = 570\<rparr>)"
    by (simp add: stepper_fields[OF assms(1)] updateTail_def Let_def currentLength_eq assms
        del: butlast.simps)
qed

lemma start_line_no_crash:
  assumes "spawner sp" and "pos s = \<lparr>x = 750, y = 570\<rparr>"
    and "history s = initialTail \<lparr>x = 750, y = 570\<rparr>" and "score s = 0"
    and "width s = 800" and "height s = 600"
    and "15 \<le> j" and "j < length (history (stepper sp s))"
  shows "\<not> crash (stepper sp s) j"
proof -
  let ?t = "stepper sp s" and ?a = "angle (updateDirection s)"
  note st = start_line_stepper[OF assms(1-6)]
  have "length (history ?t) = 80" by (simp add: st(2) del: butlast.simps)
  then have j: "j < 80" "0 < j" "j - 1 < 80" using assms(7,8) by simp_all
  have "history ?t ! j = initialTail \<lparr>x = 750, y = 570\<rparr> ! (j - 1)"
    using j by (simp add: st(2) nth_butlast nth_Cons' del: butlast.simps)
  also have "\<dots> = \<lparr>x = 750 + real (j - 1) * 2.5, y = 570\<rparr>"
    using j by (simp add: nth_initialTail)
  finally have h: "x (history ?t ! j) = 750 + real (j - 1) * 2.5" by simp
  have "real (j - 1) = real j - 1" using j by (simp add: of_nat_diff)
  moreover have "15 \<le> real j" using assms(7) by simp
  ultimately have r: "14 \<le> real (j - 1)" by simp
  have c: "cos ?a \<le> 1" by simp
  have "x (pos ?t) - x (history ?t ! j) = cos ?a * 2.5 - real (j - 1) * 2.5"
    by (simp add: st(1) h)
  also have "\<dots> \<le> - 5" using c r by linarith
  finally have "5 \<le> \<bar>x (pos ?t) - x (history ?t ! j)\<bar>" by simp
  then show ?thesis by (intro no_crash_far) simp
qed

lemma start_line_loop:
  assumes "isPlaying s" and "pos s = \<lparr>x = 750, y = 570\<rparr>"
    and "history s = initialTail \<lparr>x = 750, y = 570\<rparr>" and "score s = 0"
    and "width s = 800" and "height s = 600"
  shows "loop s = renderAndSchedule (stepper spawnFood s)" and "isPlaying (loop s)"
proof -
  have "selfCollision 15 (stepper spawnFood s) = stepper spawnFood s"
    by (rule selfCollision_no_crash) (rule start_line_no_crash[OF spawner_spawnFood assms(2-6)])
  then show l: "loop s = renderAndSchedule (stepper spawnFood s)"
    using assms(1) by (simp add: loop_def)
  show "isPlaying (loop s)" using assms(1) by (simp add: l stepper_fields[OF spawner_spawnFood])
qed


lemma exampleThreshold_fields:
  "isPlaying exampleThreshold" "pos exampleThreshold = \<lparr>x = 750, y = 570\<rparr>"
  "history exampleThreshold = initialTail \<lparr>x = 750, y = 570\<rparr>" "score exampleThreshold = 0"
  "width exampleThreshold = 800" "height exampleThreshold = 600"
  "angle exampleThreshold = pi" "targetAngle exampleThreshold = pi"
  "food exampleThreshold = \<lparr>x = 747.5, y = 555\<rparr>"
  using atStart_examplePlaying(1)
  by (simp_all add: exampleThreshold_def atStart_def)




lemma stepper_food_check:
  "score (stepper spawnFood s) =
     (if foodDist (wraparound (moveHead (updateDirection s))) < 15 then score s + 1 else score s)"
  "food (stepper spawnFood s) =
     (if foodDist (wraparound (moveHead (updateDirection s))) < 15 then food (spawnFood s) else food s)"
  "draws (stepper spawnFood s) =
     (if foodDist (wraparound (moveHead (updateDirection s))) < 15 then draws (spawnFood s) else draws s)"
  "score (stepper spawnFood_src s) =
     (if foodDist (wraparound (moveHead (updateDirection s))) < 15 then score s + 1 else score s)"
  "food (stepper spawnFood_src s) =
     (if foodDist (wraparound (moveHead (updateDirection s))) < 15 then food (spawnFood_src s) else food s)"
  "draws (stepper spawnFood_src s) =
     (if foodDist (wraparound (moveHead (updateDirection s))) < 15 then draws (spawnFood_src s) else draws s)"
proof -
  let ?t = "updateTail (wraparound (moveHead (updateDirection s)))"
  have a: "food (spawnFood (?t\<lparr>score := score ?t + 1\<rparr>)) = food (spawnFood s)"
    "draws (spawnFood (?t\<lparr>score := score ?t + 1\<rparr>)) = draws (spawnFood s)"
    using food_spawnFood_cong[of "?t\<lparr>score := score ?t + 1\<rparr>" s] by simp_all
  have b: "food (spawnFood_src (?t\<lparr>score := score ?t + 1\<rparr>)) = food (spawnFood_src s)"
    "draws (spawnFood_src (?t\<lparr>score := score ?t + 1\<rparr>)) = draws (spawnFood_src s)"
    using food_spawnFood_src_cong[of "?t\<lparr>score := score ?t + 1\<rparr>" s] by simp_all
  show "score (stepper spawnFood s) =
     (if foodDist (wraparound (moveHead (updateDirection s))) < 15 then score s + 1 else score s)"
    "food (stepper spawnFood s) =
     (if foodDist (wraparound (moveHead (updateDirection s))) < 15 then food (spawnFood s) else food s)"
    "draws (stepper spawnFood s) =
     (if foodDist (wraparound (moveHead (updateDirection s))) < 15 then draws (spawnFood s) else draws s)"
    using a by (simp_all add: stepper_def foodCollision_def)
  show "score (stepper spawnFood_src s) =
     (if foodDist (wraparound (moveHead (updateDirection s))) < 15 then score s + 1 else score s)"
    "food (stepper spawnFood_src s) =
     (if foodDist (wraparound (moveHead (updateDirection s))) < 15 then food (spawnFood_src s) else food s)"
    "draws (stepper spawnFood_src s) =
     (if foodDist (wraparound (moveHead (updateDirection s))) < 15 then draws (spawnFood_src s) else draws s)"
    using b by (simp_all add: stepper_def foodCollision_def)
qed

text \<open>
  Claim C3. A playing tick of either version runs the food check on the moved and wrapped
  head, before the self-collision check: when the Euclidean distance from that head to
  the food is strictly below 15 the check raises the score by exactly one and the food is
  what the spawner produces; otherwise, and so at a distance of exactly 15, it leaves
  score, food and the count of random draws unchanged. When the tick does not end in a
  reset, these are the score and the food at the end of the tick.
\<close>

theorem food_pickup_strictly_within_15:
  assumes "isPlaying s"
  shows "loop s = renderAndSchedule (selfCollision 15 (stepper spawnFood s))
     \<and> score (stepper spawnFood s) =
         (if foodDist (wraparound (moveHead (updateDirection s))) < 15 then score s + 1 else score s)
     \<and> food (stepper spawnFood s) =
         (if foodDist (wraparound (moveHead (updateDirection s))) < 15 then food (spawnFood s) else food s)
     \<and> draws (stepper spawnFood s) =
         (if foodDist (wraparound (moveHead (updateDirection s))) < 15 then draws (spawnFood s) else draws s)
     \<and> (isPlaying (loop s) \<longrightarrow>
          score (loop s) =
            (if foodDist (wraparound (moveHead (updateDirection s))) < 15 then score s + 1 else score s)
        \<and> food (loop s) =
            (if foodDist (wraparound (moveHead (updateDirection s))) < 15 then food (spawnFood s) else food s)
        \<and> foodDist (wraparound (moveHead (updateDirection s))) =
            sqrt ((x (pos (loop s)) - x (food s)) * (x (pos (loop s)) - x (food s))
                + (y (pos (loop s)) - y (food s)) * (y (pos (loop s)) - y (food s))))
     \<and> (isPlaying (loop_src s) \<longrightarrow>
          score (loop_src s) =
            (if foodDist (wraparound (moveHead (updateDirection s))) < 15 then score s + 1 else score s)
        \<and> food (loop_src s) =
            (if foodDist (wraparound (moveHead (updateDirection s))) < 15 then food (spawnFood_src s) else food s)
        \<and> foodDist (wraparound (moveHead (updateDirection s))) =
            sqrt ((x (pos (loop_src s)) - x (food s)) * (x (pos (loop_src s)) - x (food s))
                + (y (pos (loop_src s)) - y (food s)) * (y (pos (loop_src s)) - y (food s))))"
proof -
  have l: "loop s = renderAndSchedule (selfCollision 15 (stepper spawnFood s))"
    using assms by (simp add: loop_def)
  have d: "foodDist (wraparound (moveHead (updateDirection s))) =
      sqrt ((x (pos (stepper sp s)) - x (food s)) * (x (pos (stepper sp s)) - x (food s))
          + (y (pos (stepper sp s)) - y (food s)) * (y (pos (stepper sp s)) - y (food s)))"
    if "spawner sp" for sp
    by (simp add: stepper_fields[OF that] foodDist_def Let_def)
  have a: "score (loop s) =
            (if foodDist (wraparound (moveHead (updateDirection s))) < 15 then score s + 1 else score s)
        \<and> food (loop s) =
            (if foodDist (wraparound (moveHead (updateDirection s))) < 15 then food (spawnFood s) else food s)
        \<and> foodDist (wraparound (moveHead (updateDirection s))) =
            sqrt ((x (pos (loop s)) - x (food s)) * (x (pos (loop s)) - x (food s))
                + (y (pos (loop s)) - y (food s)) * (y (pos (loop s)) - y (food s)))"
    if "isPlaying (loop s)"
    using d[OF spawner_spawnFood]
    by (simp add: loop_still_playing[OF assms that] stepper_food_check)
  have b: "score (loop_src s) =
            (if foodDist (wraparound (moveHead (updateDirection s))) < 15 then score s + 1 else score s)
        \<and> food (loop_src s) =
            (if foodDist (wraparound (moveHead (updateDirection s))) < 15 then food (spawnFood_src s) else food s)
        \<and> foodDist (wraparound (moveHead (updateDirection s))) =
            sqrt ((x (pos (loop_src s)) - x (food s)) * (x (pos (loop_src s)) - x (food s))
                + (y (pos (loop_src s)) - y (food s)) * (y (pos (loop_src s)) - y (food s)))"
    if "isPlaying (loop_src s)"
    using d[OF spawner_spawnFood_src]
    by (simp add: loop_src_still_playing_state[OF assms that] stepper_food_check)
  show ?thesis using l a b stepper_food_check(1,2,3)[of s] by blast
qed

theorem food_pickup_strictly_within_15_witness:
  "isPlaying exampleThreshold \<and> isPlaying (loop exampleThreshold)
   \<and> foodDist (wraparound (moveHead (updateDirection exampleThreshold))) = 15
   \<and> score (loop exampleThreshold) = score exampleThreshold
   \<and> food (loop exampleThreshold) = food exampleThreshold
   \<and> isPlaying examplePlaying \<and> isPlaying (loop examplePlaying)
   \<and> foodDist (wraparound (moveHead (updateDirection examplePlaying))) < 15
   \<and> score (loop examplePlaying) = score examplePlaying + 1"
proof -
  note f = exampleThreshold_fields
  have "pos (stepper spawnFood exampleThreshold) = \<lparr>x = 747.5, y = 570\<rparr>"
    by (simp add: stepper_heading_left(1)[OF spawner_spawnFood f(7,8)] f wrapLow_def wrapHigh_def)
  then have p: "pos (wraparound (moveHead (updateDirection exampleThreshold))) = \<lparr>x = 747.5, y = 570\<rparr>"
    by (simp add: stepper_fields[OF spawner_spawnFood])
  have "sqrt (15 * 15) = (15::real)" by (rule real_sqrt_unique) simp_all
  then have d: "foodDist (wraparound (moveHead (updateDirection exampleThreshold))) = 15"
    by (simp add: foodDist_def p f)
  have "pos (stepper spawnFood examplePlaying) = \<lparr>x = 747.5, y = 570\<rparr>"
    by (rule atStart_stepper(1)[OF atStart_examplePlaying(1)])
  then have q: "pos (wraparound (moveHead (updateDirection examplePlaying))) = \<lparr>x = 747.5, y = 570\<rparr>"
    by (simp add: stepper_fields[OF spawner_spawnFood])
  have e: "foodDist (wraparound (moveHead (updateDirection examplePlaying))) < 15"
    by (simp add: foodDist_def q examplePlaying_fields sqrt_less_numeral)
  have t: "isPlaying exampleThreshold" "isPlaying (loop exampleThreshold)"
    using start_line_loop(2)[OF f(1-6)] f(1) by simp_all
  have u: "isPlaying examplePlaying" "isPlaying (loop examplePlaying)"
    using atStart_loop(1)[OF atStart_examplePlaying(1)] atStart_examplePlaying(1)
    by (simp_all add: atStart_def)
  from food_pickup_strictly_within_15[OF t(1)] t(2)
  have a: "score (loop exampleThreshold) =
        (if foodDist (wraparound (moveHead (updateDirection exampleThreshold))) < 15
         then score exampleThreshold + 1 else score exampleThreshold)"
    "food (loop exampleThreshold) =
        (if foodDist (wraparound (moveHead (updateDirection exampleThreshold))) < 15
         then food (spawnFood exampleThreshold) else food exampleThreshold)"
    by blast+
  from food_pickup_strictly_within_15[OF u(1)] u(2)
  have b: "score (loop examplePlaying) =
        (if foodDist (wraparound (moveHead (updateDirection examplePlaying))) < 15
         then score examplePlaying + 1 else score examplePlaying)"
    by blast
  have "score (loop exampleThreshold) = score exampleThreshold"
    "food (loop exampleThreshold) = food exampleThreshold"
    "score (loop examplePlaying) = score examplePlaying + 1"
    using a b d e by simp_all
  then show ?thesis using d e t u by blast
qed

text \<open>
  Claim C7, as amended. For a container of non-negative size, a playing tick of either
  version that does not end in a reset leaves the head at the wrapped position of the
  moved head: an abscissa below 0 becomes the width, one above the width becomes 0, and
  likewise the ordinate with the height; a head moved to \<open>width + e\<close> with \<open>e > 0\<close> is at
  0 in the next state. A tick that ends in a reset leaves the head at the start corner.
\<close>

theorem toroidal_wrap_after_move:
  assumes "isPlaying s" and "0 \<le> width s" and "0 \<le> height s" and "0 < e"
  shows "(isPlaying (loop s) \<longrightarrow>
        x (pos (loop s)) =
          (if x (pos (moveHead (updateDirection s))) < 0 then width s
           else if x (pos (moveHead (updateDirection s))) > width s then 0
           else x (pos (moveHead (updateDirection s))))
      \<and> y (pos (loop s)) =
          (if y (pos (moveHead (updateDirection s))) < 0 then height s
           else if y (pos (moveHead (updateDirection s))) > height s then 0
           else y (pos (moveHead (updateDirection s))))
      \<and> (x (pos (moveHead (updateDirection s))) = width s + e \<longrightarrow> x (pos (loop s)) = 0)
      \<and> (x (pos (moveHead (updateDirection s))) = - e \<longrightarrow> x (pos (loop s)) = width s)
      \<and> (y (pos (moveHead (updateDirection s))) = height s + e \<longrightarrow> y (pos (loop s)) = 0)
      \<and> (y (pos (moveHead (updateDirection s))) = - e \<longrightarrow> y (pos (loop s)) = height s))
   \<and> (isPlaying (loop_src s) \<longrightarrow>
        x (pos (loop_src s)) =
          (if x (pos (moveHead (updateDirection s))) < 0 then width s
           else if x (pos (moveHead (updateDirection s))) > width s then 0
           else x (pos (moveHead (updateDirection s))))
      \<and> y (pos (loop_src s)) =
          (if y (pos (moveHead (updateDirection s))) < 0 then height s
           else if y (pos (moveHead (updateDirection s))) > height s then 0
           else y (pos (moveHead (updateDirection s))))
      \<and> (x (pos (moveHead (updateDirection s))) = width s + e \<longrightarrow> x (pos (loop_src s)) = 0)
      \<and> (x (pos (moveHead (updateDirection s))) = - e \<longrightarrow> x (pos (loop_src s)) = width s)
      \<and> (y (pos (moveHead (updateDirection s))) = height s + e \<longrightarrow> y (pos (loop_src s)) = 0)
      \<and> (y (pos (moveHead (updateDirection s))) = - e \<longrightarrow> y (pos (loop_src s)) = height s))
   \<and> (\<not> isPlaying (loop s) \<longrightarrow> pos (loop s) = startCorner (width s) (height s))
   \<and> (\<not> isPlaying (loop_src s) \<longrightarrow> pos (loop_src s) = startCorner (width s) (height s))"
proof -
  let ?m = "moveHead (updateDirection s)"
  have w: "x (pos (wraparound ?m)) =
          (if x (pos ?m) < 0 then width s else if x (pos ?m) > width s then 0 else x (pos ?m))"
    "y (pos (wraparound ?m)) =
          (if y (pos ?m) < 0 then height s else if y (pos ?m) > height s then 0 else y (pos ?m))"
    by (simp_all add: wraparound_def wrapLow_def wrapHigh_def)
  have a: "pos (loop s) = pos (wraparound ?m)" if "isPlaying (loop s)"
    by (simp add: loop_still_playing[OF assms(1) that] stepper_fields[OF spawner_spawnFood])
  have b: "pos (loop_src s) = pos (wraparound ?m)" if "isPlaying (loop_src s)"
    by (simp add: loop_src_still_playing_state[OF assms(1) that] stepper_fields[OF spawner_spawnFood_src])
  have c: "pos (loop s) = startCorner (width s) (height s)" if "\<not> isPlaying (loop s)"
    using loop_reset_or_playing[OF assms(1) that] by (simp add: resetTo_def)
  have d: "pos (loop_src s) = startCorner (width s) (height s)" if "\<not> isPlaying (loop_src s)"
    using loop_src_reset_or_playing[OF assms(1) that] by (simp add: resetTo_def)
  show ?thesis using a b c d assms(2-4) by (auto simp add: w)
qed

lemma exampleAtEdge_fields:
  "isPlaying exampleAtEdge" "width exampleAtEdge = 800" "height exampleAtEdge = 600"
  "angle exampleAtEdge = pi" "targetAngle exampleAtEdge = pi" "pos exampleAtEdge = \<lparr>x = 1, y = 5\<rparr>"
  "history exampleAtEdge = initialTail \<lparr>x = 750, y = 570\<rparr>" "score exampleAtEdge = 0"
  using atStart_examplePlaying(1) by (simp_all add: exampleAtEdge_def atStart_def)

lemma exampleAtEdge_loop: "isPlaying (loop exampleAtEdge)"
proof -
  note f = exampleAtEdge_fields
  let ?t = "stepper spawnFood exampleAtEdge"
  have p: "pos ?t = \<lparr>x = 800, y = 5\<rparr>"
    by (simp add: stepper_heading_left(1)[OF spawner_spawnFood f(4,5)] f wrapLow_def wrapHigh_def)
  have h: "history ?t = butlast (\<lparr>x = 800, y = 5\<rparr> # initialTail \<lparr>x = 750, y = 570\<rparr>)"
    by (simp add: stepper_heading_left(2)[OF spawner_spawnFood f(4,5)] p f currentLength_eq
        del: butlast.simps)
  have "\<not> crash ?t j" if "15 \<le> j" "j < length (history ?t)" for j
  proof -
    have "length (history ?t) = 80" by (simp add: h del: butlast.simps)
    then have j: "j < 80" "0 < j" "j - 1 < 80" using that by simp_all
    have "history ?t ! j = initialTail \<lparr>x = 750, y = 570\<rparr> ! (j - 1)"
      using j by (simp add: h nth_butlast nth_Cons' del: butlast.simps)
    then have "y (history ?t ! j) = 570" using j by (simp add: nth_initialTail)
    then have "5 \<le> \<bar>y (pos ?t) - y (history ?t ! j)\<bar>" by (simp add: p)
    then show ?thesis by (intro no_crash_far) simp
  qed
  then have "selfCollision 15 ?t = ?t" by (intro selfCollision_no_crash) simp
  then show ?thesis using f(1) by (simp add: loop_def stepper_fields[OF spawner_spawnFood])
qed

theorem toroidal_wrap_after_move_witness:
  "isPlaying exampleAtEdge \<and> isPlaying (loop exampleAtEdge)
   \<and> 0 \<le> width exampleAtEdge \<and> 0 \<le> height exampleAtEdge \<and> (0::real) < 1.5
   \<and> width exampleAtEdge = 800
   \<and> x (pos (moveHead (updateDirection exampleAtEdge))) = - 1.5
   \<and> x (pos (loop exampleAtEdge)) = 800"
proof -
  note f = exampleAtEdge_fields
  have a: "angle (updateDirection exampleAtEdge) = pi"
    by (simp add: updateDirection_def normDiff_at_target f)
  have m: "x (pos (moveHead (updateDirection exampleAtEdge))) = - 1.5"
    by (simp add: moveHead_def a f SPEED_def)
  show ?thesis
    using toroidal_wrap_after_move[of exampleAtEdge "1.5"] m exampleAtEdge_loop
    by (simp add: f)
qed

text \<open>
  Claim C7 as stated fails on a tick that also resets: in the container mounted 50 wide
  and resized to 36, the head moves to abscissa \<open>-2.5\<close> and is wrapped to the width 36,
  the wrapped head meets the tail, and the tick ends with the head at the start corner,
  abscissa \<open>-14\<close>.
\<close>

theorem reset_overrides_wrap:
  "reachable exampleNarrow \<and> isPlaying exampleNarrow \<and> width exampleNarrow = 36
   \<and> x (pos (moveHead (updateDirection exampleNarrow))) = - 2.5
   \<and> x (pos (stepper spawnFood exampleNarrow)) = 36
   \<and> x (pos (loop exampleNarrow)) = - 14
   \<and> x (pos (loop exampleNarrow)) \<noteq> width exampleNarrow"
proof -
  note f = exampleNarrow_fields
  have r: "reachable exampleNarrow"
    unfolding exampleNarrow_def exampleRefs_def by (intro reachable.intros)
  have a: "angle (updateDirection exampleNarrow) = pi"
    by (simp add: updateDirection_def normDiff_at_target f)
  have m: "x (pos (moveHead (updateDirection exampleNarrow))) = - 2.5"
    by (simp add: moveHead_def a f SPEED_def)
  have c: "15 + SEGMENT_SPACING * 0 < length (history (stepper spawnFood exampleNarrow))"
    "crash (stepper spawnFood exampleNarrow) (15 + SEGMENT_SPACING * 0)"
    by (rule narrowStart_crash[OF spawner_spawnFood narrowStart_exampleNarrow]; simp)+
  have "resetTo 36 600 (loop exampleNarrow)"
    using loop_crash_resets[OF f(6) c] by (simp add: f)
  then have l: "x (pos (loop exampleNarrow)) = - 14" by (simp add: resetTo_def startCorner_def)
  show ?thesis using r m l by (simp add: f exampleNarrow_step)
qed

end
